theory Spec2Isabelle
  imports Complex_Main
begin

section \<open>JavaScript values used by the components\<close>

text \<open>
  The components compute with JavaScript numbers and strings. A number is a double: NaN,
  an infinity, or a finite value, kept as the rational it stands for. The sign of a zero
  is not kept; it cannot be seen in what the components display or send (\<open>String(-0)\<close>
  is \<open>0\<close>). Strings are character lists.
\<close>

datatype jsnum = NaN | PosInf | NegInf | Num rat

subsection \<open>Rounding to a double\<close>

definition pow2 :: "int \<Rightarrow> rat" where
  "pow2 e = (if 0 \<le> e then 2 ^ nat e else 1 / 2 ^ nat (- e))"

text \<open>The number of binary digits of a positive integer.\<close>

function bit_length :: "int \<Rightarrow> nat" where
  "bit_length n = (if n \<le> 0 then 0 else Suc (bit_length (n div 2)))"
  by pat_completeness auto
termination
  by (relation "measure nat") auto

declare bit_length.simps [simp del]

text \<open>The binary exponent of a positive rational \<open>q\<close>: the \<open>e\<close> with \<open>2^e \<le> q < 2^(e+1)\<close>.\<close>

definition ilog2 :: "rat \<Rightarrow> int" where
  "ilog2 q =
     (if 1 \<le> q then int (bit_length \<lfloor>q\<rfloor>) - 1
      else - int (bit_length (\<lceil>1 / q\<rceil> - 1)))"

text \<open>The nearest integer, the even one of two that are equally near.\<close>

definition round_half_even :: "rat \<Rightarrow> int" where
  "round_half_even y =
     (let f = \<lfloor>y\<rfloor>; d = y - of_int f
      in if d < 1 / 2 then f else if 1 / 2 < d then f + 1 else if even f then f else f + 1)"

text \<open>
  The double nearest to a rational (IEEE 754 binary64, round to nearest, ties to even):
  53 significant binary digits, exponents from \<open>-1022\<close> (below, the spacing stays that of
  the subnormal numbers), and an infinity once the rounded magnitude reaches \<open>2^1024\<close>.
\<close>

definition fl :: "rat \<Rightarrow> jsnum" where
  "fl q =
     (if q = 0 then Num 0
      else (let e = max (ilog2 \<bar>q\<bar>) (- 1022) - 52;
                v = of_int (round_half_even (q / pow2 e)) * pow2 e
            in if pow2 1024 \<le> v then PosInf
               else if v \<le> - pow2 1024 then NegInf
               else Num v))"

subsection \<open>Operators\<close>

text \<open>\<open>a || b\<close> on numbers: \<open>a\<close> when it is truthy (neither NaN nor 0), else \<open>b\<close>.\<close>

fun js_or :: "jsnum \<Rightarrow> jsnum \<Rightarrow> jsnum" where
  "js_or NaN b = b"
| "js_or (Num q) b = (if q = 0 then b else Num q)"
| "js_or a b = a"

text \<open>The order of the numbers other than NaN.\<close>

fun js_le :: "jsnum \<Rightarrow> jsnum \<Rightarrow> bool" where
  "js_le (Num a) (Num b) = (a \<le> b)"
| "js_le NegInf b = True"
| "js_le a PosInf = True"
| "js_le a b = False"

text \<open>\<open>Math.min\<close> and \<open>Math.max\<close>: NaN when an argument is NaN.\<close>

definition math_min :: "jsnum \<Rightarrow> jsnum \<Rightarrow> jsnum" where
  "math_min a b = (if a = NaN \<or> b = NaN then NaN else if js_le a b then a else b)"

definition math_max :: "jsnum \<Rightarrow> jsnum \<Rightarrow> jsnum" where
  "math_max a b = (if a = NaN \<or> b = NaN then NaN else if js_le a b then b else a)"

text \<open>The sign of a number other than NaN.\<close>

fun js_sign :: "jsnum \<Rightarrow> int" where
  "js_sign (Num q) = (if q = 0 then 0 else if 0 < q then 1 else - 1)"
| "js_sign PosInf = 1"
| "js_sign NegInf = - 1"
| "js_sign NaN = 0"

definition signed_inf :: "int \<Rightarrow> jsnum" where
  "signed_inf s = (if s = 0 then NaN else if 0 < s then PosInf else NegInf)"

text \<open>\<open>a * b\<close>: the rounded product; an infinity times zero is NaN.\<close>

definition js_mul :: "jsnum \<Rightarrow> jsnum \<Rightarrow> jsnum" where
  "js_mul a b =
     (if a = NaN \<or> b = NaN then NaN
      else case (a, b) of
             (Num x, Num y) \<Rightarrow> fl (x * y)
           | _ \<Rightarrow> signed_inf (js_sign a * js_sign b))"

text \<open>
  \<open>a / b\<close>: the rounded quotient. (A zero divisor counts as positive; the modelled
  expressions divide by 60 only.)
\<close>

definition js_div :: "jsnum \<Rightarrow> jsnum \<Rightarrow> jsnum" where
  "js_div a b =
     (if a = NaN \<or> b = NaN then NaN
      else case (a, b) of
             (Num x, Num y) \<Rightarrow> (if y = 0 then signed_inf (js_sign a) else fl (x / y))
           | (Num x, _) \<Rightarrow> Num 0
           | (_, Num y) \<Rightarrow> signed_inf (js_sign a * (if y < 0 then - 1 else 1))
           | _ \<Rightarrow> NaN)"

text \<open>\<open>Math.ceil\<close>.\<close>

fun math_ceil :: "jsnum \<Rightarrow> jsnum" where
  "math_ceil (Num q) = Num (of_int \<lceil>q\<rceil>)"
| "math_ceil a = a"

subsection \<open>Numbers from strings\<close>

definition is_digit :: "char \<Rightarrow> bool" where
  "is_digit c = (c \<in> set ''0123456789'')"

text \<open>
  White space: the tab, the line feed, the vertical tab, the form feed, the carriage
  return and the space. (The white space beyond ASCII has no single character here; the
  text of a numeric input holds none.)
\<close>

definition is_space :: "char \<Rightarrow> bool" where
  "is_space c = (c \<in> set [CHR '' '', CHR 0x09, CHR 0x0A, CHR 0x0B, CHR 0x0C, CHR 0x0D])"

text \<open>The value of a digit, up to the hexadecimal ones.\<close>

definition digit_of :: "char \<Rightarrow> int option" where
  "digit_of c =
     map_of (zip ''0123456789abcdef'' [0, 1, 2, 3, 4, 5, 6, 7, 8, 9, 10, 11, 12, 13, 14, 15]
             @ zip ''ABCDEF'' [10, 11, 12, 13, 14, 15]) c"

definition is_digit_in :: "int \<Rightarrow> char \<Rightarrow> bool" where
  "is_digit_in base c = (case digit_of c of None \<Rightarrow> False | Some v \<Rightarrow> v < base)"

definition digits_val :: "int \<Rightarrow> string \<Rightarrow> int" where
  "digits_val base ds = foldl (\<lambda>a c. base * a + (case digit_of c of None \<Rightarrow> 0 | Some v \<Rightarrow> v)) 0 ds"

text \<open>An optional sign in front of a text: the sign as a factor, and the rest.\<close>

fun split_sign :: "string \<Rightarrow> int \<times> string" where
  "split_sign [] = (1, [])"
| "split_sign (c # cs) =
     (if c = CHR ''-'' then (- 1, cs) else if c = CHR ''+'' then (1, cs) else (1, c # cs))"

definition pow10 :: "int \<Rightarrow> rat" where
  "pow10 e = (if 0 \<le> e then 10 ^ nat e else 1 / 10 ^ nat (- e))"

text \<open>
  The exponent part of a decimal literal, or its absence: \<open>e\<close> or \<open>E\<close>, an optional
  sign, and digits. \<open>None\<close> when the text is neither.
\<close>

definition exponent_part :: "string \<Rightarrow> int option" where
  "exponent_part s =
     (case s of
        [] \<Rightarrow> Some 0
      | c # r \<Rightarrow>
          if c = CHR ''e'' \<or> c = CHR ''E''
          then (let (sg, ds) = split_sign r
                in if ds \<noteq> [] \<and> list_all is_digit ds then Some (sg * digits_val 10 ds) else None)
          else None)"

text \<open>
  The value of an unsigned decimal literal (\<open>StrUnsignedDecimalLiteral\<close> other than
  \<open>Infinity\<close>): digits, a point with digits on at least one side, or both, and an
  optional exponent part.
\<close>

definition decimal_literal :: "string \<Rightarrow> rat option" where
  "decimal_literal s =
     (let ip = takeWhile is_digit s;
          r1 = dropWhile is_digit s;
          has_point = (r1 \<noteq> [] \<and> hd r1 = CHR ''.'');
          fp = (if has_point then takeWhile is_digit (tl r1) else []);
          r2 = (if has_point then dropWhile is_digit (tl r1) else r1)
      in if ip = [] \<and> fp = [] then None
         else (case exponent_part r2 of
                 None \<Rightarrow> None
               | Some e \<Rightarrow> Some (of_int (digits_val 10 (ip @ fp)) * pow10 (e - int (length fp)))))"

text \<open>
  A literal in another base (\<open>NonDecimalIntegerLiteral\<close>): \<open>0x\<close>, \<open>0o\<close> or \<open>0b\<close>, in
  either case of the letter, and at least one digit of the base.
\<close>

definition radix_prefix :: "string \<Rightarrow> (int \<times> string) option" where
  "radix_prefix s =
     (case s of
        z # x # ds \<Rightarrow>
          if z \<noteq> CHR ''0'' then None
          else if x = CHR ''x'' \<or> x = CHR ''X'' then Some (16, ds)
          else if x = CHR ''o'' \<or> x = CHR ''O'' then Some (8, ds)
          else if x = CHR ''b'' \<or> x = CHR ''B'' then Some (2, ds)
          else None
      | _ \<Rightarrow> None)"

definition trim :: "string \<Rightarrow> string" where
  "trim s = rev (dropWhile is_space (rev (dropWhile is_space s)))"

text \<open>
  \<open>Number(s)\<close> (\<open>StringToNumber\<close>): white space around the literal is dropped; the empty
  text is 0; a literal in base 16, 8 or 2 takes no sign; a decimal literal, or
  \<open>Infinity\<close>, takes an optional sign; any other text is NaN. The value of the literal is
  rounded to a double.
\<close>

definition js_Number :: "string \<Rightarrow> jsnum" where
  "js_Number s =
     (let t = trim s
      in if t = [] then Num 0
         else (case radix_prefix t of
                 Some (base, ds) \<Rightarrow>
                   if ds \<noteq> [] \<and> list_all (is_digit_in base) ds
                   then fl (of_int (digits_val base ds)) else NaN
               | None \<Rightarrow>
                   (let (sg, u) = split_sign t
                    in if u = ''Infinity'' then signed_inf sg
                       else (case decimal_literal u of
                               None \<Rightarrow> NaN
                             | Some q \<Rightarrow> fl (of_int sg * q)))))"

text \<open>
  \<open>parseInt(s)\<close> without a radix: leading white space is skipped, then an optional
  sign; after a prefix \<open>0x\<close> or \<open>0X\<close> the digits are hexadecimal, else decimal; the
  longest run of digits is read, and the result is NaN when that run is empty, else its
  value rounded to a double.
\<close>

definition js_parseInt :: "string \<Rightarrow> jsnum" where
  "js_parseInt s =
     (let (sg, s2) = split_sign (dropWhile is_space s);
          hex = (take 2 s2 = ''0x'' \<or> take 2 s2 = ''0X'');
          base = (if hex then 16 else 10);
          ds = takeWhile (is_digit_in base) (if hex then drop 2 s2 else s2)
      in if ds = [] then NaN else fl (of_int (sg * digits_val base ds)))"

text \<open>\<open>s || d\<close> on an optional string: \<open>d\<close> when \<open>s\<close> is missing or empty.\<close>

definition or_else :: "string option \<Rightarrow> string \<Rightarrow> string" where
  "or_else s d = (case s of None \<Rightarrow> d | Some v \<Rightarrow> if v = [] then d else v)"

text \<open>\<open>s.startsWith(p)\<close>.\<close>

definition startsWith :: "string \<Rightarrow> string \<Rightarrow> bool" where
  "startsWith s p = (take (length p) s = p)"

subsection \<open>Properties of the rounding\<close>

lemma bit_length_le: "n < 2 ^ k \<Longrightarrow> bit_length n \<le> k"
proof (induction k arbitrary: n)
  case 0
  then show ?case by (simp add: bit_length.simps)
next
  case (Suc k)
  show ?case
  proof (cases "n \<le> 0")
    case True
    then show ?thesis by (simp add: bit_length.simps)
  next
    case False
    have "n div 2 < 2 ^ k" using Suc.prems by auto
    then have "bit_length (n div 2) \<le> k" by (rule Suc.IH)
    then show ?thesis using False by (simp add: bit_length.simps [of n])
  qed
qed

lemma ilog2_le:
  assumes "0 < q" and "q < 2 ^ Suc k"
  shows "ilog2 q \<le> int k"
proof (cases "1 \<le> q")
  case True
  have "\<lfloor>q\<rfloor> < 2 ^ Suc k"
    using assms(2) by (simp add: floor_less_iff)
  then have "bit_length \<lfloor>q\<rfloor> \<le> Suc k" by (rule bit_length_le)
  then show ?thesis using True by (simp add: ilog2_def)
next
  case False
  then show ?thesis by (simp add: ilog2_def)
qed

lemma round_half_even_of_int: "round_half_even (of_int z) = z"
  by (simp add: round_half_even_def)

lemma round_half_even_error: "\<bar>of_int (round_half_even y) - y\<bar> \<le> 1 / 2"
proof -
  have "of_int \<lfloor>y\<rfloor> \<le> y" and "y < of_int \<lfloor>y\<rfloor> + 1" by linarith+
  then show ?thesis
    by (auto simp add: round_half_even_def Let_def abs_le_iff)
qed

text \<open>The unit in the last place of a number below \<open>2 ^ Suc k\<close>, for \<open>k\<close> up to 52.\<close>

lemma ulp_exponent:
  assumes "q \<noteq> 0" and "\<bar>q\<bar> < 2 ^ Suc k" and "k \<le> 52"
  obtains m where "52 - k \<le> m" and "pow2 (max (ilog2 \<bar>q\<bar>) (- 1022) - 52) = 1 / 2 ^ m"
proof -
  have "ilog2 \<bar>q\<bar> \<le> int k" using assms(1,2) by (intro ilog2_le) simp_all
  then have e: "max (ilog2 \<bar>q\<bar>) (- 1022) - 52 \<le> int k - 52" by simp
  define m where "m = nat (- (max (ilog2 \<bar>q\<bar>) (- 1022) - 52))"
  have "52 - k \<le> m" using e assms(3) by (simp add: m_def)
  moreover have "pow2 (max (ilog2 \<bar>q\<bar>) (- 1022) - 52) = 1 / 2 ^ m"
  proof (cases "max (ilog2 \<bar>q\<bar>) (- 1022) - 52 = 0")
    case True
    then show ?thesis by (simp add: pow2_def m_def)
  next
    case False
    then have "max (ilog2 \<bar>q\<bar>) (- 1022) - 52 < 0" using e assms(3) by simp
    then show ?thesis by (simp add: pow2_def m_def)
  qed
  ultimately show ?thesis using that by blast
qed

lemma pow2_1024_large: "(2::rat) ^ 54 \<le> pow2 1024"
proof -
  have "(2::rat) ^ 54 \<le> 2 ^ 1024" by (rule power_increasing) simp_all
  then show ?thesis by (simp add: pow2_def)
qed

lemma fl_eq:
  assumes "q \<noteq> 0" and "pow2 (max (ilog2 \<bar>q\<bar>) (- 1022) - 52) = u"
    and "of_int (round_half_even (q / u)) * u = v" and "\<bar>v\<bar> < pow2 1024"
  shows "fl q = Num v"
proof -
  have "\<not> pow2 1024 \<le> v" and "\<not> v \<le> - pow2 1024"
    using assms(4) by linarith+
  then show ?thesis
    unfolding fl_def Let_def assms(2) assms(3) using assms(1) by simp
qed

text \<open>An integer below \<open>2^53\<close> in magnitude is a double.\<close>

lemma fl_of_int:
  assumes "\<bar>k\<bar> < 2 ^ 53"
  shows "fl (of_int k) = Num (of_int k)"
proof (cases "k = 0")
  case True
  then show ?thesis by (simp add: fl_def)
next
  case False
  have lt: "\<bar>(of_int k :: rat)\<bar> < 2 ^ 53"
  proof -
    have "(of_int \<bar>k\<bar> :: rat) < of_int (2 ^ 53)" using assms by (simp only: of_int_less_iff)
    then show ?thesis by simp
  qed
  then have "\<bar>(of_int k :: rat)\<bar> < 2 ^ Suc 52" by simp
  then obtain m where pm: "pow2 (max (ilog2 \<bar>of_int k\<bar>) (- 1022) - 52) = 1 / 2 ^ m"
    using False ulp_exponent [of "of_int k" 52] by auto
  have "(of_int k :: rat) / (1 / 2 ^ m) = of_int (k * 2 ^ m)" by simp
  then have r: "round_half_even ((of_int k :: rat) / (1 / 2 ^ m)) = k * 2 ^ m"
    by (simp only: round_half_even_of_int)
  have v: "(of_int (round_half_even ((of_int k :: rat) / (1 / 2 ^ m))) :: rat) * (1 / 2 ^ m) = of_int k"
    unfolding r by simp
  have "(2::rat) ^ 53 \<le> 2 ^ 54" by simp
  then have big: "\<bar>(of_int k :: rat)\<bar> < pow2 1024"
    using lt pow2_1024_large by linarith
  have "(of_int k :: rat) \<noteq> 0" using False by simp
  then show ?thesis using pm v big by (rule fl_eq)
qed

text \<open>
  The quotient by 60 of an integer below \<open>2^53\<close> in magnitude is rounded to a double
  with the same ceiling: the rounding error is at most 1/2, and a quotient that is not
  an integer is at least 1/60 away from the next integers.
\<close>

lemma ceiling_fl_div_60:
  assumes "\<bar>a\<bar> < 2 ^ 53"
  obtains v where "fl (of_int a / 60) = Num v" and "\<lceil>v\<rceil> = \<lceil>(of_int a :: rat) / 60\<rceil>"
proof (cases "60 dvd a")
  case True
  then obtain b where b: "a = 60 * b" by (auto simp: dvd_def)
  have "\<bar>b\<bar> \<le> \<bar>a\<bar>" using b by (simp add: abs_mult)
  then have "\<bar>b\<bar> < 2 ^ 53" using assms by linarith
  then have "fl (of_int b) = Num (of_int b)" by (rule fl_of_int)
  moreover have "(of_int a :: rat) / 60 = of_int b" using b by simp
  ultimately show ?thesis using that [of "of_int b"] by simp
next
  case False
  define x :: rat where "x = of_int a / 60"
  define k where "k = \<lceil>x\<rceil>"
  have x60: "60 * x = of_int a" by (simp add: x_def)
  have xn0: "x \<noteq> 0" using False by (auto simp: x_def)
  have "x \<le> of_int k" and "of_int k - 1 < x" unfolding k_def by linarith+
  then have "of_int a \<le> (of_int (60 * k) :: rat)" and "(of_int (60 * k - 60) :: rat) < of_int a"
    using x60 by simp_all
  then have le: "a \<le> 60 * k" and gt: "60 * k - 60 < a"
    by (simp_all only: of_int_le_iff of_int_less_iff)
  have "a \<noteq> 60 * k" using False by auto
  then have "a \<le> 60 * k - 1" and "60 * k - 59 \<le> a" using le gt by linarith+
  then have "(of_int a :: rat) \<le> of_int (60 * k - 1)" and "(of_int (60 * k - 59) :: rat) \<le> of_int a"
    by (simp_all only: of_int_le_iff)
  then have hi: "x \<le> of_int k - 1 / 60" and lo: "of_int k - 1 + 1 / 60 \<le> x"
    using x60 by simp_all
  have xa: "\<bar>x\<bar> \<le> \<bar>(of_int a :: rat)\<bar> / 60" by (simp add: x_def)
  have a53: "\<bar>(of_int a :: rat)\<bar> < 2 ^ 53"
  proof -
    have "(of_int \<bar>a\<bar> :: rat) < of_int (2 ^ 53)" using assms by (simp only: of_int_less_iff)
    then show ?thesis by simp
  qed
  have "\<bar>x\<bar> < 2 ^ Suc 47"
  proof -
    have "\<bar>(of_int a :: rat)\<bar> / 60 < 2 ^ 53 / 60" using a53 by simp
    also have "\<dots> \<le> 2 ^ Suc 47" by simp
    finally show ?thesis using xa by linarith
  qed
  then obtain m where m5: "52 - 47 \<le> m"
    and pm: "pow2 (max (ilog2 \<bar>x\<bar>) (- 1022) - 52) = 1 / 2 ^ m"
    using xn0 ulp_exponent [of x 47] by auto
  define r where "r = round_half_even (x / (1 / 2 ^ m))"
  define v :: rat where "v = of_int r * (1 / 2 ^ m)"
  have pos: "(0::rat) < 2 ^ m" by simp
  have "(2::rat) ^ 5 \<le> 2 ^ m" using m5 by (intro power_increasing) simp_all
  then have m32: "(32::rat) \<le> 2 ^ m" by simp
  have "\<bar>of_int r - x / (1 / 2 ^ m)\<bar> \<le> 1 / 2"
    unfolding r_def by (rule round_half_even_error)
  then have d: "\<bar>of_int r - x * 2 ^ m\<bar> \<le> 1 / 2" by simp
  have vx: "(of_int r - x * 2 ^ m) / 2 ^ m = v - x"
    by (simp add: v_def diff_divide_distrib)
  have "\<bar>v - x\<bar> = \<bar>of_int r - x * 2 ^ m\<bar> / 2 ^ m"
    unfolding vx [symmetric] by (simp add: abs_divide)
  also have "\<dots> \<le> (1 / 2) / 2 ^ m"
    using d by (intro divide_right_mono) simp_all
  also have "\<dots> \<le> 1 / 64"
    using m32 by (simp add: field_simps)
  finally have err: "\<bar>v - x\<bar> \<le> 1 / 64" .
  have lower: "of_int k - 1 < v" using err lo by linarith
  have upper: "v \<le> of_int k" using err hi by linarith
  have ceil: "\<lceil>v\<rceil> = k" using lower upper by (simp add: ceiling_unique)
  have "\<bar>v\<bar> \<le> \<bar>x\<bar> + 1 / 64" using err by linarith
  moreover have "\<bar>x\<bar> < 2 ^ 53" using xa a53 by linarith
  moreover have "(2::rat) ^ 53 + 1 / 64 \<le> 2 ^ 54" by simp
  ultimately have big: "\<bar>v\<bar> < pow2 1024" using pow2_1024_large by linarith
  have "of_int (round_half_even (x / (1 / 2 ^ m))) * (1 / 2 ^ m) = v"
    by (simp add: v_def r_def)
  with xn0 pm have "fl x = Num v" using big by (rule fl_eq)
  then show ?thesis using that [of v] ceil by (simp add: x_def k_def)
qed

text \<open>A way to check the rounding of a given number, step by step.\<close>

lemma fl_check:
  assumes "q \<noteq> 0" and "max (ilog2 \<bar>q\<bar>) (- 1022) - 52 = e"
    and "of_int (round_half_even (q / pow2 e)) * pow2 e = v" and "\<bar>v\<bar> < 2 ^ 1000"
  shows "fl q = Num v"
proof -
  have "(2::rat) ^ 1000 \<le> 2 ^ 1024" by (rule power_increasing) simp_all
  then have "(2::rat) ^ 1000 \<le> pow2 1024" by (simp add: pow2_def)
  then have "\<bar>v\<bar> < pow2 1024" using assms(4) by linarith
  with assms(1) show ?thesis
    using assms(2,3) by (intro fl_eq [where u = "pow2 e"]) simp_all
qed

lemma fl_numeral_5: "fl 5 = Num 5"
  using fl_of_int [of 5] by simp

section \<open>The delay between messages\<close>

text \<open>
  Both campaign components hold \<open>delaySeconds\<close> in a state cell that starts at 45
  (\<open>useState(45)\<close>), rewrite it on every change of the numeric input, and pass the cell's
  current value to the send call of the API client, which puts \<open>String(delaySeconds)\<close>
  into the request.

  ReactivationCampaign:
  \<^verbatim>\<open>onChange={(e) => setDelaySeconds(Math.max(30, Math.min(120, parseInt(e.target.value) || 45)))}\<close>

  ManualProspecting (both delay inputs):
  \<^verbatim>\<open>onChange={e => setDelaySeconds(Number(e.target.value))}\<close>
\<close>

definition reactivation_onChange :: "string \<Rightarrow> jsnum" where
  "reactivation_onChange v = math_max (Num 30) (math_min (Num 120) (js_or (js_parseInt v) (Num 45)))"

definition manual_onChange :: "string \<Rightarrow> jsnum" where
  "manual_onChange v = js_Number v"

text \<open>
  The value of the cell after the operator's entries, in order: each \<open>onChange\<close>
  overwrites the cell, whatever it held.
\<close>

definition delay_after :: "(string \<Rightarrow> jsnum) \<Rightarrow> string list \<Rightarrow> jsnum" where
  "delay_after onChange entries = foldl (\<lambda>cell v. onChange v) (Num 45) entries"

text \<open>
  \<open>handleSendCampaign\<close> (ReactivationCampaign) and \<open>handleSend\<close> (ManualProspecting)
  launch with the cell's value as it is.
\<close>

definition handleSendCampaign_delay :: "string list \<Rightarrow> jsnum" where
  "handleSendCampaign_delay entries = delay_after reactivation_onChange entries"

definition handleSend_delay :: "string list \<Rightarrow> jsnum" where
  "handleSend_delay entries = delay_after manual_onChange entries"

definition within_bounds :: "jsnum \<Rightarrow> bool" where
  "within_bounds d = (case d of Num q \<Rightarrow> 30 \<le> q \<and> q \<le> 120 | _ \<Rightarrow> False)"

subsection \<open>Properties\<close>

lemma clamp_within_bounds: "within_bounds (math_max (Num 30) (math_min (Num 120) (js_or r (Num 45))))"
  by (cases r) (simp_all add: within_bounds_def math_min_def math_max_def)

lemma reactivation_onChange_within_bounds: "within_bounds (reactivation_onChange v)"
  unfolding reactivation_onChange_def by (rule clamp_within_bounds)

lemma delay_after_last:
  "delay_after f entries = (if entries = [] then Num 45 else f (last entries))"
  unfolding delay_after_def by (induction entries rule: rev_induct) simp_all

text \<open>
  In ReactivationCampaign the delay used at launch is within [30, 120] after any
  sequence of entries.
\<close>

lemma handleSendCampaign_delay_within_bounds: "within_bounds (handleSendCampaign_delay entries)"
proof (cases "entries = []")
  case True
  then show ?thesis
    by (simp add: handleSendCampaign_delay_def delay_after_last within_bounds_def)
next
  case False
  then show ?thesis
    by (simp add: handleSendCampaign_delay_def delay_after_last
        reactivation_onChange_within_bounds)
qed

text \<open>What \<open>Number\<close> and \<open>parseInt\<close> make of some entries of the numeric input.\<close>

lemma js_Number_5: "js_Number ''5'' = Num 5"
  by (simp add: js_Number_def trim_def is_space_def radix_prefix_def decimal_literal_def
      exponent_part_def is_digit_def digits_val_def digit_of_def pow10_def fl_numeral_5)

lemma js_parseInt_5: "js_parseInt ''5'' = Num 5"
  by (simp add: js_parseInt_def is_space_def is_digit_in_def digits_val_def digit_of_def
      fl_numeral_5)

lemma fl_fraction: "fl (75 / 2) = Num (75 / 2)"
proof (rule fl_check)
  show "(75 / 2 :: rat) \<noteq> 0" by simp
  show "max (ilog2 \<bar>75 / 2\<bar>) (- 1022) - 52 = - 47" by code_simp
  show "of_int (round_half_even (75 / 2 / pow2 (- 47))) * pow2 (- 47) = (75 / 2 :: rat)"
    by code_simp
  show "\<bar>75 / 2 :: rat\<bar> < 2 ^ 1000" by simp
qed

lemma js_Number_fraction: "js_Number ''37.5'' = Num (75 / 2)"
  by (simp add: js_Number_def trim_def is_space_def radix_prefix_def decimal_literal_def
      exponent_part_def is_digit_def digits_val_def digit_of_def pow10_def fl_fraction)

lemma js_Number_exponent: "js_Number ''1e2'' = Num 100"
  using fl_of_int [of 100]
  by (simp add: js_Number_def trim_def is_space_def radix_prefix_def decimal_literal_def
      exponent_part_def is_digit_def digits_val_def digit_of_def pow10_def)

lemma js_Number_hexadecimal: "js_Number ''0x1F'' = Num 31"
  using fl_of_int [of 31]
  by (simp add: js_Number_def trim_def is_space_def radix_prefix_def is_digit_in_def
      digits_val_def digit_of_def)

lemma js_Number_not_a_number: "js_Number ''12px'' = NaN"
  by (simp add: js_Number_def trim_def is_space_def radix_prefix_def decimal_literal_def
      exponent_part_def is_digit_def)

lemma js_Number_empty: "js_Number [] = Num 0"
  by (simp add: js_Number_def trim_def)

text \<open>
  C2. The delay used to launch a campaign is within [30, 120] for every value the
  operator enters. ManualProspecting does not clamp: after the operator enters 5, the
  campaign is launched with a delay of 5 seconds, outside the bounds. (ReactivationCampaign
  clamps the same entry to 30.)
\<close>

theorem manual_delay_not_clamped:
  "handleSend_delay [''5''] = Num 5 \<and> \<not> within_bounds (handleSend_delay [''5''])
   \<and> handleSendCampaign_delay [''5''] = Num 30"
  by (simp add: handleSend_delay_def handleSendCampaign_delay_def delay_after_def
      manual_onChange_def reactivation_onChange_def js_Number_5 js_parseInt_5
      math_min_def math_max_def within_bounds_def)

section \<open>Kanban board: the move actions of a lead card\<close>

text \<open>
  \<open>LeadCard\<close> (kanban/page.tsx) offers its move buttons in the expanded part of the card:
  \<^verbatim>\<open>
  {lead.status !== 'reuniao_agendada' && (<button onClick={() => onMove(lead.phone, 'reuniao_agendada')} ...>)}
  {lead.status !== 'perdido' && lead.status !== 'curioso' && (<button onClick={() => onMove(lead.phone, 'perdido')} ...>)}
  \<close>
  \<open>move_actions\<close> lists the target stages whose button is rendered, in order.
\<close>

definition move_actions :: "bool \<Rightarrow> string \<Rightarrow> string list" where
  "move_actions expanded lead_status =
     (if expanded
      then (if lead_status \<noteq> ''reuniao_agendada'' then [''reuniao_agendada''] else [])
         @ (if lead_status \<noteq> ''perdido'' \<and> lead_status \<noteq> ''curioso'' then [''perdido''] else [])
      else [])"

text \<open>
  \<open>handleMove\<close> passes the button's target to \<open>api.moveLeadStatus\<close>, which posts to the
  move endpoint with the phone and the new status; the lead's current stage is not part
  of the request.
\<close>

record move_request =
  req_method :: string
  req_endpoint :: string
  req_phone :: string
  req_new_status :: string

definition moveLeadStatus :: "string \<Rightarrow> string \<Rightarrow> move_request" where
  "moveLeadStatus phone newStatus =
     \<lparr>req_method = ''POST'', req_endpoint = ''/api/ai-responder/kanban/move'',
      req_phone = phone, req_new_status = newStatus\<rparr>"

text \<open>The stages of the board (\<open>COLUMNS\<close>).\<close>

definition COLUMNS :: "string list" where
  "COLUMNS = [''novo'', ''em_conversa'', ''qualificado'', ''reuniao_agendada'', ''curioso'', ''perdido'']"

section \<open>Pipeline page: opening WhatsApp for a lead\<close>

text \<open>
  \<^verbatim>\<open>
  const handleWhatsApp = (lead: Lead) => {
    if (lead.telefone) {
      let phone = lead.telefone.replace(/\D/g, '');
      if (!phone.startsWith('55')) { phone = '55' + phone; }
      window.open(`https://wa.me/${phone}`, '_blank');
    }
  };
  \<close>
  This is the opener of a WhatsApp link for a lead of the pipeline page. Of the lead
  only \<open>telefone\<close> is read; it is optional, and a missing or empty one is falsy. The
  result is the address opened, if any.
\<close>

definition strip_non_digits :: "string \<Rightarrow> string" where
  "strip_non_digits s = filter is_digit s"

definition whatsapp_phone :: "string \<Rightarrow> string" where
  "whatsapp_phone telefone =
     (let phone = strip_non_digits telefone
      in if \<not> startsWith phone ''55'' then ''55'' @ phone else phone)"

definition handleWhatsApp :: "string option \<Rightarrow> string option" where
  "handleWhatsApp telefone =
     (case telefone of
        None \<Rightarrow> None
      | Some t \<Rightarrow> if t = [] then None else Some (''https://wa.me/'' @ whatsapp_phone t))"

section \<open>Preview statistics of a campaign\<close>

text \<open>
  ManualProspecting shows, in its preview step (for either mode),
  \<^verbatim>\<open>{previewData.total_leads * 2}\<close> as the number of messages and
  \<^verbatim>\<open>{Math.ceil((previewData.total_leads * delaySeconds) / 60)}\<close> as the minutes, and the
  same expression for the minutes under the delay input of its preview and edit steps;
  ReactivationCampaign shows \<open>total_leads\<close> messages and the same expression for the
  minutes in its preview and edit steps. \<open>total_leads\<close> comes from the server and
  \<open>delaySeconds\<close> from the state cell; both are numbers, and the arithmetic is that of
  doubles.
\<close>

datatype Mode = Spin | Custom

definition estimated_minutes :: "jsnum \<Rightarrow> jsnum \<Rightarrow> jsnum" where
  "estimated_minutes total_leads delaySeconds =
     math_ceil (js_div (js_mul total_leads delaySeconds) (Num 60))"

definition manual_messages :: "Mode \<Rightarrow> jsnum \<Rightarrow> jsnum" where
  "manual_messages mode total_leads = js_mul total_leads (Num 2)"

definition manual_minutes :: "Mode \<Rightarrow> jsnum \<Rightarrow> jsnum \<Rightarrow> jsnum" where
  "manual_minutes mode total_leads delaySeconds = estimated_minutes total_leads delaySeconds"

definition reactivation_messages :: "jsnum \<Rightarrow> jsnum" where
  "reactivation_messages total_leads = total_leads"

definition reactivation_minutes :: "jsnum \<Rightarrow> jsnum \<Rightarrow> jsnum" where
  "reactivation_minutes total_leads delaySeconds = estimated_minutes total_leads delaySeconds"

section \<open>Polling the progress of a prospecting campaign\<close>

text \<open>
  \<open>startCampaign\<close> of the application context polls the status of the job it started:
  \<^verbatim>\<open>
  const poll = async () => {
    const statusResult = await api.getCampaignStatus(jobId);
    if (statusResult.data) {
      setCurrentCampaign(statusResult.data);
      if (statusResult.data.status === 'completed') {
        setIsProspecting(false);
        await refreshLeads();
      } else if (statusResult.data.status === 'failed') {
        setIsProspecting(false);
        setError(statusResult.data.mensagem || 'Erro na prospeccao');
      } else {
        setTimeout(poll, 1000);
      }
    }
  };
  \<close>
  \<open>apiCall\<close> answers with \<open>{data}\<close> or with \<open>{error}\<close>.
\<close>

record CampaignProgress =
  job_id :: int
  status :: string
  progresso :: int
  leads_encontrados :: int
  leads_qualificados :: int
  mensagem :: "string option"

datatype 'a ApiResponse = ApiData 'a | ApiError string

text \<open>
  The part of the context's state that \<open>poll\<close> writes; \<open>refreshes\<close> counts the calls of
  \<open>refreshLeads\<close>.
\<close>

record app_state =
  isProspecting :: bool
  currentCampaign :: "CampaignProgress option"
  error :: "string option"
  refreshes :: nat

text \<open>
  One run of \<open>poll\<close> on the answer it receives: the new state, and the delay in
  milliseconds of the timer it sets for the next run, if it sets one.
\<close>

definition poll_once :: "app_state \<Rightarrow> CampaignProgress ApiResponse \<Rightarrow> app_state \<times> nat option" where
  "poll_once st statusResult =
     (case statusResult of
        ApiError e \<Rightarrow> (st, None)
      | ApiData d \<Rightarrow>
          (let st1 = st\<lparr>currentCampaign := Some d\<rparr>
           in if status d = ''completed''
              then (st1\<lparr>isProspecting := False, refreshes := refreshes st1 + 1\<rparr>, None)
              else if status d = ''failed''
              then (st1\<lparr>isProspecting := False,
                        error := Some (or_else (mensagem d) ''Erro na prospeccao'')\<rparr>, None)
              else (st1, Some 1000)))"

text \<open>
  The loop, on the answers the server gives to the successive queries: the final state,
  the number of queries made, and whether a timer for a further query is still set when
  the given answers are used up.
\<close>

fun poll :: "app_state \<Rightarrow> CampaignProgress ApiResponse list \<Rightarrow> app_state \<times> nat \<times> bool" where
  "poll st [] = (st, 0, True)"
| "poll st (r # rs) =
     (case poll_once st r of
        (st', None) \<Rightarrow> (st', 1, False)
      | (st', Some ms) \<Rightarrow> (case poll st' rs of (st'', n, pending) \<Rightarrow> (st'', Suc n, pending)))"

text \<open>The answers after which \<open>poll\<close> sets its timer again.\<close>

definition keeps_polling :: "CampaignProgress ApiResponse \<Rightarrow> bool" where
  "keeps_polling r =
     (case r of ApiError e \<Rightarrow> False
      | ApiData d \<Rightarrow> status d \<noteq> ''completed'' \<and> status d \<noteq> ''failed'')"

definition initial_state :: app_state where
  "initial_state = \<lparr>isProspecting = True, currentCampaign = None, error = None, refreshes = 0\<rparr>"

definition progress_with_status :: "string \<Rightarrow> CampaignProgress" where
  "progress_with_status s =
     \<lparr>job_id = 1, status = s, progresso = 0, leads_encontrados = 0, leads_qualificados = 0,
      mensagem = None\<rparr>"

section \<open>Properties of the board, the pipeline page, the statistics and the poll\<close>

text \<open>
  C6 as stated fails: the move to \<open>perdido\<close> is not offered on a card in stage
  \<open>curioso\<close>.
\<close>

theorem perdido_not_offered_from_curioso:
  "''perdido'' \<notin> set (move_actions True ''curioso'')"
  by (simp add: move_actions_def)

text \<open>The moves offered on an expanded card, stage by stage of the board.\<close>

lemma move_actions_on_COLUMNS:
  "map (move_actions True) COLUMNS =
     [[''reuniao_agendada'', ''perdido''], [''reuniao_agendada'', ''perdido''],
      [''reuniao_agendada'', ''perdido''], [''perdido''], [''reuniao_agendada''],
      [''reuniao_agendada'']]"
  by (simp add: move_actions_def COLUMNS_def)

text \<open>
  C6, amended. On an expanded card, the move to \<open>reuniao_agendada\<close> is offered from
  every stage other than \<open>reuniao_agendada\<close> itself (so also from \<open>perdido\<close>), the move
  to \<open>perdido\<close> from every stage other than \<open>perdido\<close> and \<open>curioso\<close>; no other move is
  offered, and none on a collapsed card. The request sent for a move carries the chosen
  target whatever the current stage.
\<close>

theorem move_actions_offered:
  "(''reuniao_agendada'' \<in> set (move_actions True s)) = (s \<noteq> ''reuniao_agendada'')
   \<and> (''perdido'' \<in> set (move_actions True s)) = (s \<noteq> ''perdido'' \<and> s \<noteq> ''curioso'')
   \<and> set (move_actions True s) \<subseteq> {''reuniao_agendada'', ''perdido''}
   \<and> move_actions False s = []
   \<and> req_new_status (moveLeadStatus phone target) = target
   \<and> req_phone (moveLeadStatus phone target) = phone"
  by (auto simp add: move_actions_def moveLeadStatus_def)

lemma list_all_is_digit_strip: "list_all is_digit (strip_non_digits t)"
  by (simp add: strip_non_digits_def list_all_iff)

lemma is_digit_5: "is_digit CHR ''5''"
  by (simp add: is_digit_def)

text \<open>
  The link opener of the pipeline page does nothing for a missing or empty telephone;
  for any other it opens the address of the digits of the telephone, with 55 put in
  front unless they already start with 55.
\<close>

lemma handleWhatsApp_opens:
  "handleWhatsApp None = None \<and> handleWhatsApp (Some []) = None
   \<and> handleWhatsApp (Some (c # cs)) = Some (''https://wa.me/'' @ whatsapp_phone (c # cs))
   \<and> whatsapp_phone t = (if startsWith (filter is_digit t) ''55'' then filter is_digit t
                          else ''55'' @ filter is_digit t)
   \<and> list_all is_digit (whatsapp_phone t)
   \<and> startsWith (whatsapp_phone t) ''55''"
proof -
  have digits: "list_all is_digit (whatsapp_phone t)"
    using list_all_is_digit_strip [of t] is_digit_5
    by (simp add: whatsapp_phone_def Let_def)
  have starts: "startsWith (whatsapp_phone t) ''55''"
    by (simp add: whatsapp_phone_def Let_def startsWith_def)
  show ?thesis
    using digits starts
    by (simp add: handleWhatsApp_def whatsapp_phone_def strip_non_digits_def Let_def)
qed

text \<open>
  For integers \<open>N\<close> and \<open>D\<close> whose product is below \<open>2^53\<close> in magnitude, the doubles
  give the exact ceiling of \<open>N * D / 60\<close>.
\<close>

lemma estimated_minutes_exact:
  assumes "\<bar>N * D\<bar> < 2 ^ 53"
  shows "estimated_minutes (Num (of_int N)) (Num (of_int D)) = Num (of_int \<lceil>real_of_int (N * D) / 60\<rceil>)"
proof -
  have prod: "fl (of_int N * of_int D) = Num (of_int (N * D))"
    using fl_of_int [OF assms] by simp
  obtain v where v: "fl (of_int (N * D) / 60) = Num v"
    and c: "\<lceil>v\<rceil> = \<lceil>rat_of_int (N * D) / 60\<rceil>"
    using assms by (rule ceiling_fl_div_60)
  have "\<lceil>rat_of_int (N * D) / 60\<rceil> = - (- (N * D) div 60)"
    using ceiling_divide_eq_div [of "N * D" 60, where ?'a = rat] by simp
  moreover have "\<lceil>real_of_int (N * D) / 60\<rceil> = - (- (N * D) div 60)"
    using ceiling_divide_eq_div [of "N * D" 60, where ?'a = real] by simp
  ultimately have c': "\<lceil>v\<rceil> = \<lceil>real_of_int (N * D) / 60\<rceil>"
    using c by simp
  have "estimated_minutes (Num (of_int N)) (Num (of_int D)) = Num (of_int \<lceil>v\<rceil>)"
    by (simp add: estimated_minutes_def js_mul_def js_div_def prod v del: of_int_mult)
  then show ?thesis by (simp only: c')
qed

lemma double_of_int: "\<bar>N\<bar> < 2 ^ 52 \<Longrightarrow> js_mul (Num (of_int N)) (Num 2) = Num (of_int (N * 2))"
proof -
  assume "\<bar>N\<bar> < 2 ^ 52"
  then have "\<bar>N * 2\<bar> < 2 ^ 53" by (simp add: abs_mult)
  then have "fl (of_int (N * 2)) = Num (of_int (N * 2))" by (rule fl_of_int)
  then show ?thesis by (simp add: js_mul_def)
qed

text \<open>
  Beyond that bound the doubles round: 45 leads with a delay of 9007199254740991 seconds
  show 6755399441055743 minutes, one less than the exact ceiling.
\<close>

lemma estimated_minutes_rounded:
  "estimated_minutes (Num 45) (Num 9007199254740991) = Num 6755399441055743"
proof -
  have prod: "fl 405323966463344595 = Num 405323966463344576"
  proof (rule fl_check)
    show "(405323966463344595 :: rat) \<noteq> 0" by simp
    show "max (ilog2 \<bar>405323966463344595\<bar>) (- 1022) - 52 = 6" by code_simp
    show "of_int (round_half_even (405323966463344595 / pow2 6)) * pow2 6
          = (405323966463344576 :: rat)" by code_simp
    show "\<bar>405323966463344576 :: rat\<bar> < 2 ^ 1000" by simp
  qed
  have quot: "fl (101330991615836144 / 15) = Num 6755399441055743"
  proof (rule fl_check)
    show "(101330991615836144 / 15 :: rat) \<noteq> 0" by simp
    show "max (ilog2 \<bar>101330991615836144 / 15\<bar>) (- 1022) - 52 = 0" by code_simp
    show "of_int (round_half_even (101330991615836144 / 15 / pow2 0)) * pow2 0
          = (6755399441055743 :: rat)" by code_simp
    show "\<bar>6755399441055743 :: rat\<bar> < 2 ^ 1000" by simp
  qed
  show ?thesis
    by (simp add: estimated_minutes_def js_mul_def js_div_def prod quot)
qed

text \<open>A delay with a fraction: 45 leads with a delay of 37.5 seconds show 29 minutes.\<close>

lemma estimated_minutes_fraction:
  "estimated_minutes (Num 45) (js_Number ''37.5'') = Num 29"
proof -
  have prod: "fl (3375 / 2) = Num (3375 / 2)"
  proof (rule fl_check)
    show "(3375 / 2 :: rat) \<noteq> 0" by simp
    show "max (ilog2 \<bar>3375 / 2\<bar>) (- 1022) - 52 = - 42" by code_simp
    show "of_int (round_half_even (3375 / 2 / pow2 (- 42))) * pow2 (- 42) = (3375 / 2 :: rat)"
      by code_simp
    show "\<bar>3375 / 2 :: rat\<bar> < 2 ^ 1000" by simp
  qed
  have quot: "fl (225 / 8) = Num (225 / 8)"
  proof (rule fl_check)
    show "(225 / 8 :: rat) \<noteq> 0" by simp
    show "max (ilog2 \<bar>225 / 8\<bar>) (- 1022) - 52 = - 48" by code_simp
    show "of_int (round_half_even (225 / 8 / pow2 (- 48))) * pow2 (- 48) = (225 / 8 :: rat)"
      by code_simp
    show "\<bar>225 / 8 :: rat\<bar> < 2 ^ 1000" by simp
  qed
  have c: "\<lceil>225 / 8 :: rat\<rceil> = 29" by (rule ceiling_unique) simp_all
  show ?thesis
    by (simp add: estimated_minutes_def js_mul_def js_div_def js_Number_fraction prod quot c)
qed

text \<open>
  C4 as stated fails: in SPIN mode with one lead and a delay of 45 seconds the minutes
  shown are 1, not the ceiling of \<open>1 * 45 * 2 / 60\<close>, which is 2.
\<close>

theorem manual_minutes_ignore_messagesPerLead:
  "manual_minutes Spin (Num 1) (Num 45) = Num 1 \<and> manual_messages Spin (Num 1) = Num 2
   \<and> manual_minutes Spin (Num 1) (Num 45) \<noteq> Num (of_int \<lceil>real_of_int (1 * 45 * 2) / 60\<rceil>)"
  using estimated_minutes_exact [of 1 45] double_of_int [of 1]
  by (simp add: manual_minutes_def manual_messages_def)

text \<open>
  C4, amended. The minutes that the preview and edit steps show before a launch are
  \<open>Math.ceil((total_leads * delaySeconds) / 60)\<close> in both components and in both modes of
  ManualProspecting: the number of messages per lead does not enter. For integers \<open>N\<close>
  and \<open>D\<close> with \<open>|N * D| < 2^53\<close> that is the exact ceiling of \<open>N * D / 60\<close>.
  ManualProspecting shows \<open>total_leads * 2\<close> messages in either mode (\<open>N * 2\<close> for an
  integer \<open>N\<close> with \<open>|N| < 2^52\<close>), ReactivationCampaign \<open>total_leads\<close>.
\<close>

theorem estimated_minutes_shown:
  "manual_minutes mode n d = math_ceil (js_div (js_mul n d) (Num 60))
   \<and> reactivation_minutes n d = math_ceil (js_div (js_mul n d) (Num 60))
   \<and> manual_minutes Spin n d = manual_minutes Custom n d
   \<and> (\<bar>N * D\<bar> < 2 ^ 53 \<longrightarrow>
        manual_minutes mode (Num (of_int N)) (Num (of_int D)) = Num (of_int \<lceil>real_of_int (N * D) / 60\<rceil>)
        \<and> reactivation_minutes (Num (of_int N)) (Num (of_int D)) = Num (of_int \<lceil>real_of_int (N * D) / 60\<rceil>))
   \<and> manual_messages mode n = js_mul n (Num 2)
   \<and> (\<bar>N\<bar> < 2 ^ 52 \<longrightarrow> manual_messages mode (Num (of_int N)) = Num (of_int (N * 2)))
   \<and> reactivation_messages n = n"
  using estimated_minutes_exact [of N D] double_of_int [of N]
  by (simp add: manual_minutes_def reactivation_minutes_def estimated_minutes_def
      manual_messages_def reactivation_messages_def)

theorem estimated_minutes_shown_witness:
  "\<bar>7 * 45 :: int\<bar> < 2 ^ 53 \<and> \<bar>7 :: int\<bar> < 2 ^ 52
   \<and> manual_minutes Spin (Num 7) (Num 45) = Num 6
   \<and> reactivation_minutes (Num 7) (Num 45) = Num 6
   \<and> manual_messages Spin (Num 7) = Num 14"
proof -
  have b: "\<bar>7 * 45 :: int\<bar> < 2 ^ 53" and b': "\<bar>7 :: int\<bar> < 2 ^ 52" by simp_all
  have "manual_minutes Spin (Num (of_int 7)) (Num (of_int 45)) = Num (of_int \<lceil>real_of_int (7 * 45) / 60\<rceil>)"
    and "reactivation_minutes (Num (of_int 7)) (Num (of_int 45)) = Num (of_int \<lceil>real_of_int (7 * 45) / 60\<rceil>)"
    and "manual_messages Spin (Num (of_int 7)) = Num (of_int (7 * 2))"
    using estimated_minutes_shown [of Spin "Num 7" "Num 45" 7 45] b b' by blast+
  then show ?thesis using b b' by simp
qed

lemma poll_once_timer:
  "snd (poll_once st r) = (if keeps_polling r then Some 1000 else None)"
  by (cases r) (simp_all add: poll_once_def keeps_polling_def Let_def)

lemma poll_queries:
  "fst (snd (poll st rs)) = min (length rs) (Suc (length (takeWhile keeps_polling rs)))"
proof (induction rs arbitrary: st)
  case Nil
  show ?case by simp
next
  case (Cons r rs)
  obtain st' t where po: "poll_once st r = (st', t)" by (cases "poll_once st r")
  have t: "t = (if keeps_polling r then Some 1000 else None)"
    using poll_once_timer [of st r] po by simp
  show ?case
  proof (cases "keeps_polling r")
    case True
    obtain st'' n pending where p: "poll st' rs = (st'', n, pending)"
      by (cases "poll st' rs")
    have "n = min (length rs) (Suc (length (takeWhile keeps_polling rs)))"
      using Cons.IH [of st'] p by simp
    then show ?thesis using True po t p by simp
  next
    case False
    then show ?thesis using po t by simp
  qed
qed

lemma poll_pending:
  "snd (snd (poll st rs)) = list_all keeps_polling rs"
proof (induction rs arbitrary: st)
  case Nil
  show ?case by simp
next
  case (Cons r rs)
  obtain st' t where po: "poll_once st r = (st', t)" by (cases "poll_once st r")
  have t: "t = (if keeps_polling r then Some 1000 else None)"
    using poll_once_timer [of st r] po by simp
  show ?case
  proof (cases "keeps_polling r")
    case True
    obtain st'' n pending where p: "poll st' rs = (st'', n, pending)"
      by (cases "poll st' rs")
    have "pending = list_all keeps_polling rs"
      using Cons.IH [of st'] p by simp
    then show ?thesis using True po t p by simp
  next
    case False
    then show ?thesis using po t by simp
  qed
qed

text \<open>
  C5 as stated fails: after observing the status \<open>cancelled\<close> the loop sets its timer
  again, and goes on as long as that status is reported.
\<close>

theorem poll_continues_after_cancelled:
  "snd (poll_once initial_state (ApiData (progress_with_status ''cancelled''))) = Some 1000
   \<and> snd (poll initial_state
        [ApiData (progress_with_status ''cancelled''), ApiData (progress_with_status ''cancelled''),
         ApiData (progress_with_status ''cancelled'')]) = (3, True)"
  by (simp add: poll_once_def progress_with_status_def initial_state_def Let_def)

text \<open>
  C5, amended. After each answer the loop queries again, 1000 ms later, exactly when
  the answer carries data whose status is neither \<open>completed\<close> nor \<open>failed\<close> (so also
  after \<open>cancelled\<close>); it stops at the first answer that is \<open>completed\<close>, \<open>failed\<close> or
  an error without data. On a sequence of answers it makes one query more than the
  leading answers that keep it polling, and is still polling at the end exactly when
  all answers do.
\<close>

theorem poll_stops_on_completed_failed_or_error:
  "snd (poll_once st r) = (if keeps_polling r then Some 1000 else None)
   \<and> keeps_polling (ApiData d) = (status d \<noteq> ''completed'' \<and> status d \<noteq> ''failed'')
   \<and> keeps_polling (ApiError e) = False
   \<and> fst (snd (poll st rs)) = min (length rs) (Suc (length (takeWhile keeps_polling rs)))
   \<and> snd (snd (poll st rs)) = list_all keeps_polling rs"
  by (simp add: poll_once_timer poll_queries poll_pending keeps_polling_def)

section \<open>The log of reactivation messages\<close>

text \<open>
  Two scripts create the table \<open>reactivation_log\<close>, each with
  \<open>CREATE TABLE IF NOT EXISTS\<close>. A table is modelled by the constraints of its definition
  that decide whether a row is admitted, and its rows. A row maps column names to values,
  \<open>None\<close> being NULL. The \<open>id\<close> column is generated by the database in both definitions
  (\<open>gen_random_uuid()\<close>, \<open>BIGSERIAL\<close>), so the primary key rejects no insert and is left
  out; of the defaults, only that of \<open>status\<close> is kept (the others are timestamps). The
  indexes and the row-level policy \<open>FOR ALL USING (true)\<close> admit every row.
\<close>

type_synonym row = "string \<Rightarrow> string option"

record table_def =
  not_null :: "string list"
  unique :: "string list list"
  defaults :: "(string \<times> string) list"

record table =
  tdef :: table_def
  rows :: "row list"

type_synonym database = "string \<Rightarrow> table option"

datatype sql_error = Undefined_table | Not_null_violation | Unique_violation

definition create_table_if_not_exists :: "string \<Rightarrow> table_def \<Rightarrow> database \<Rightarrow> database" where
  "create_table_if_not_exists tname d db =
     (case db tname of Some t \<Rightarrow> db | None \<Rightarrow> db(tname \<mapsto> \<lparr>tdef = d, rows = []\<rparr>))"

text \<open>A column left out of an insert takes its default, if it has one.\<close>

definition with_defaults :: "table_def \<Rightarrow> row \<Rightarrow> row" where
  "with_defaults d r = (\<lambda>c. case r c of Some v \<Rightarrow> Some v | None \<Rightarrow> map_of (defaults d) c)"

text \<open>
  Two rows collide on a \<open>UNIQUE\<close> constraint when they agree on all of its columns and
  none of these is NULL.
\<close>

definition collide :: "string list \<Rightarrow> row \<Rightarrow> row \<Rightarrow> bool" where
  "collide cols r r' = list_all (\<lambda>c. r c \<noteq> None \<and> r c = r' c) cols"

definition insert_into :: "string \<Rightarrow> row \<Rightarrow> database \<Rightarrow> sql_error + database" where
  "insert_into tname r db =
     (case db tname of
        None \<Rightarrow> Inl Undefined_table
      | Some t \<Rightarrow>
          (let r' = with_defaults (tdef t) r
           in if list_ex (\<lambda>c. r' c = None) (not_null (tdef t)) then Inl Not_null_violation
              else if list_ex (\<lambda>cols. list_ex (collide cols r') (rows t)) (unique (tdef t))
              then Inl Unique_violation
              else Inr (db(tname \<mapsto> t\<lparr>rows := rows t @ [r']\<rparr>))))"

text \<open>
  migration_reactivation_log.sql:
  \<^verbatim>\<open>
  CREATE TABLE IF NOT EXISTS reactivation_log (
      id UUID PRIMARY KEY DEFAULT gen_random_uuid(),
      phone TEXT NOT NULL, name TEXT, company TEXT,
      campaign_id TEXT NOT NULL, message_preview TEXT,
      status TEXT DEFAULT 'queued', error TEXT,
      sent_at TIMESTAMPTZ DEFAULT NOW(), delivered_at TIMESTAMPTZ,
      -- Evitar duplicatas do mesmo telefone na mesma campanha
      UNIQUE(phone, campaign_id)
  );
  \<close>
\<close>

definition migration_reactivation_log :: "database \<Rightarrow> database" where
  "migration_reactivation_log db =
     create_table_if_not_exists ''reactivation_log''
       \<lparr>not_null = [''phone'', ''campaign_id''], unique = [[''phone'', ''campaign_id'']],
        defaults = [(''status'', ''queued'')]\<rparr> db"

text \<open>
  The script of the table \<open>reactivation_leads\<close>, which also makes sure that
  \<open>reactivation_log\<close> exists:
  \<^verbatim>\<open>
  CREATE TABLE IF NOT EXISTS reactivation_log (
      id BIGSERIAL PRIMARY KEY,
      phone VARCHAR(20) NOT NULL, name VARCHAR(255), company VARCHAR(255),
      campaign_id VARCHAR(100), status VARCHAR(50) DEFAULT 'sent',
      error TEXT, sent_at TIMESTAMPTZ DEFAULT NOW()
  );
  \<close>
  (Its table \<open>reactivation_leads\<close> is created too; no row of the log depends on it.)
\<close>

definition reactivation_leads_script :: "database \<Rightarrow> database" where
  "reactivation_leads_script db =
     create_table_if_not_exists ''reactivation_log''
       \<lparr>not_null = [''phone''], unique = [], defaults = [(''status'', ''sent'')]\<rparr>
       (create_table_if_not_exists ''reactivation_leads''
          \<lparr>not_null = [''phone''], unique = [[''phone'']], defaults = [(''status'', ''contacted'')]\<rparr> db)"

definition empty_database :: database where
  "empty_database = (\<lambda>tname. None)"

text \<open>A sequence of inserts into one table; a rejected insert leaves the database as it was.\<close>

fun insert_all :: "string \<Rightarrow> row list \<Rightarrow> database \<Rightarrow> database" where
  "insert_all tname [] db = db"
| "insert_all tname (r # rs) db =
     (case insert_into tname r db of
        Inl e \<Rightarrow> insert_all tname rs db
      | Inr db' \<Rightarrow> insert_all tname rs db')"

text \<open>The (phone, campaign_id) pairs of the rows of the log.\<close>

definition log_pairs :: "database \<Rightarrow> (string option \<times> string option) list" where
  "log_pairs db =
     (case db ''reactivation_log'' of
        None \<Rightarrow> []
      | Some t \<Rightarrow> map (\<lambda>r. (r ''phone'', r ''campaign_id'')) (rows t))"

definition send_record :: "string \<Rightarrow> string \<Rightarrow> row" where
  "send_record phone campaign = (\<lambda>c. None)(''phone'' \<mapsto> phone, ''campaign_id'' \<mapsto> campaign)"

text \<open>
  A log table that enforces the pair: it has the constraint \<open>UNIQUE(phone, campaign_id)\<close>,
  both columns are \<open>NOT NULL\<close>, and its rows have pairwise different pairs.
\<close>

definition enforces_pair :: "database \<Rightarrow> bool" where
  "enforces_pair db =
     (case db ''reactivation_log'' of
        None \<Rightarrow> False
      | Some t \<Rightarrow>
          [''phone'', ''campaign_id''] \<in> set (unique (tdef t))
          \<and> ''phone'' \<in> set (not_null (tdef t))
          \<and> ''campaign_id'' \<in> set (not_null (tdef t))
          \<and> list_all (\<lambda>r. r ''phone'' \<noteq> None \<and> r ''campaign_id'' \<noteq> None) (rows t)
          \<and> distinct (map (\<lambda>r. (r ''phone'', r ''campaign_id'')) (rows t)))"

subsection \<open>Properties\<close>

lemma enforces_pair_insert_into:
  assumes "enforces_pair db" and "insert_into ''reactivation_log'' r db = Inr db'"
  shows "enforces_pair db'"
proof -
  obtain t where t: "db ''reactivation_log'' = Some t"
    using assms(1) by (auto simp: enforces_pair_def split: option.splits)
  define r' where "r' = with_defaults (tdef t) r"
  have u: "[''phone'', ''campaign_id''] \<in> set (unique (tdef t))"
    and np: "''phone'' \<in> set (not_null (tdef t))"
    and nc: "''campaign_id'' \<in> set (not_null (tdef t))"
    and nn: "list_all (\<lambda>r. r ''phone'' \<noteq> None \<and> r ''campaign_id'' \<noteq> None) (rows t)"
    and d: "distinct (map (\<lambda>r. (r ''phone'', r ''campaign_id'')) (rows t))"
    using assms(1) t by (simp_all add: enforces_pair_def)
  have ok1: "\<not> list_ex (\<lambda>c. r' c = None) (not_null (tdef t))"
    and ok2: "\<not> list_ex (\<lambda>cols. list_ex (collide cols r') (rows t)) (unique (tdef t))"
    and db': "db' = db(''reactivation_log'' \<mapsto> t\<lparr>rows := rows t @ [r']\<rparr>)"
    using assms(2) t unfolding insert_into_def r'_def
    by (auto simp: Let_def split: if_splits)
  have p: "r' ''phone'' \<noteq> None" and c: "r' ''campaign_id'' \<noteq> None"
    using ok1 np nc by (auto simp: list_ex_iff)
  have "\<not> list_ex (collide [''phone'', ''campaign_id''] r') (rows t)"
    using ok2 u by (auto simp: list_ex_iff)
  then have fresh: "(r' ''phone'', r' ''campaign_id'') \<notin> (\<lambda>r. (r ''phone'', r ''campaign_id'')) ` set (rows t)"
    using p c by (auto simp: list_ex_iff collide_def)
  show ?thesis
    using u np nc nn d p c fresh by (simp add: enforces_pair_def db')
qed

lemma enforces_pair_insert_all:
  "enforces_pair db \<Longrightarrow> enforces_pair (insert_all ''reactivation_log'' rs db)"
proof (induction rs arbitrary: db)
  case Nil
  then show ?case by simp
next
  case (Cons r rs)
  show ?case
  proof (cases "insert_into ''reactivation_log'' r db")
    case (Inl e)
    then show ?thesis using Cons by simp
  next
    case (Inr db')
    then have "enforces_pair db'" using Cons.prems enforces_pair_insert_into by blast
    then show ?thesis using Cons.IH Inr by simp
  qed
qed

text \<open>
  On a database where the migration creates the table, the pairs of the log stay
  pairwise different under any sequence of inserts.
\<close>

lemma migration_log_pairs_distinct:
  "distinct (log_pairs (insert_all ''reactivation_log'' rs (migration_reactivation_log empty_database)))"
proof -
  have "enforces_pair (migration_reactivation_log empty_database)"
    by (simp add: enforces_pair_def migration_reactivation_log_def
        create_table_if_not_exists_def empty_database_def)
  then have "enforces_pair (insert_all ''reactivation_log'' rs (migration_reactivation_log empty_database))"
    by (rule enforces_pair_insert_all)
  then show ?thesis
    by (auto simp: enforces_pair_def log_pairs_def split: option.splits)
qed

text \<open>
  C8. The store admits at most one record per (phone, campaign_id), enforced by the
  storage layer. On a database where the script of \<open>reactivation_leads\<close> has run first,
  the table \<open>reactivation_log\<close> exists without the constraint, the migration then changes
  nothing, and the same pair is stored twice.
\<close>

theorem log_admits_duplicate_pair:
  "log_pairs (insert_all ''reactivation_log''
      [send_record ''5511988887777'' ''c1'', send_record ''5511988887777'' ''c1'']
      (migration_reactivation_log (reactivation_leads_script empty_database)))
   = [(Some ''5511988887777'', Some ''c1''), (Some ''5511988887777'', Some ''c1'')]"
  by (simp add: log_pairs_def insert_into_def migration_reactivation_log_def
      reactivation_leads_script_def create_table_if_not_exists_def empty_database_def
      send_record_def with_defaults_def Let_def)

section \<open>The safety filter\<close>

text \<open>
  A lead of an uploaded file, as the components declare it (\<open>interface Lead\<close> of
  ManualProspecting; the preview texts, which no modelled function reads, are left out).
\<close>

record Lead =
  name :: string
  phone :: string
  company :: "string option"
  "notes" :: "string option"
  original_status :: "string option"

text \<open>Modelled from the spec: a lead after normalization (\<open>NormalizedLead\<close> of the spec).\<close>

record NormalizedLead =
  lead_name :: string
  phoneE164 :: string
  lead_company :: "string option"
  lead_notes :: "string option"

text \<open>
  The report of the filter, with the fields that \<open>interface SafetyReport\<close> of the
  components declares (the spec calls them \<open>totalOriginal\<close>, \<open>sendable\<close>,
  \<open>alreadyContacted\<close>, \<open>duplicatesRemoved\<close>, \<open>blockedClosed\<close> and \<open>noPhone\<close>); the
  fields about the sheets of a file are left out.
\<close>

record SafetyReport =
  total_original :: nat
  sendable :: nat
  already_contacted :: nat
  already_contacted_list :: "Lead list"
  duplicates_removed :: nat
  duplicates_list :: "Lead list"
  skipped_fechado :: nat
  skipped_fechado_list :: "Lead list"
  no_phone :: nat

text \<open>
  Modelled from the spec: the kinds of campaign and the lookups of the filter of the
  server (the vocabulary of closed statuses, the history of contacts and the window of
  days it is asked about), none of which is among the sources.
\<close>

datatype CampaignKind = Reactivation | ColdProspecting

record Lookups =
  closedVocabulary :: "string list"
  wasRecentlyContacted :: "string \<Rightarrow> CampaignKind \<Rightarrow> nat \<Rightarrow> bool"
  windowDays :: nat

text \<open>
  Modelled from the spec: the Normalizer of the server, which is not among the sources.
  Its phone normalization strips the non-digits and puts the country prefix 55 in front
  unless the digits carry it; it fails when fewer than 10 digits follow the prefix.
\<close>

definition normalize_phone :: "string \<Rightarrow> string option" where
  "normalize_phone raw =
     (let digits = filter is_digit raw;
          e164 = (if startsWith digits ''55'' then digits else ''55'' @ digits)
      in if length e164 - 2 < 10 then None else Some e164)"

text \<open>Modelled from the spec: lower case of a letter, for the case-insensitive match.\<close>

definition lower_char :: "char \<Rightarrow> char" where
  "lower_char c =
     (case map_of (zip ''ABCDEFGHIJKLMNOPQRSTUVWXYZ'' ''abcdefghijklmnopqrstuvwxyz'') c of
        Some l \<Rightarrow> l | None \<Rightarrow> c)"

text \<open>
  Modelled from the spec: the test of step 3 of the filter of the server, a
  case-insensitive match of \<open>original_status\<close> against the closed vocabulary.
\<close>

definition is_closed :: "string list \<Rightarrow> Lead \<Rightarrow> bool" where
  "is_closed vocabulary l =
     (case original_status l of
        None \<Rightarrow> False
      | Some s \<Rightarrow> map lower_char s \<in> set (map (map lower_char) vocabulary))"

text \<open>
  Modelled from the spec: what the filter of the server carries from lead to lead, the
  phones seen so far in the batch, the leads kept and the report.
\<close>

record filter_state =
  seen :: "string list"
  kept :: "NormalizedLead list"
  report :: SafetyReport

text \<open>
  Modelled from the spec: one lead through the filter of the server (\<open>previewCampaign\<close>),
  which is not among the sources, in the strict priority order of the spec:
  normalization failure, phone seen earlier in the batch, closed status, recently
  contacted, else sendable. A phone counts as seen from its first normalized occurrence,
  whatever bucket that occurrence went to.
\<close>

definition filter_step :: "CampaignKind \<Rightarrow> Lookups \<Rightarrow> filter_state \<Rightarrow> Lead \<Rightarrow> filter_state" where
  "filter_step kind lk st l =
     (let r = report st in
      case normalize_phone (phone l) of
        None \<Rightarrow> st\<lparr>report := r\<lparr>no_phone := no_phone r + 1\<rparr>\<rparr>
      | Some p \<Rightarrow>
          if p \<in> set (seen st)
          then st\<lparr>report := r\<lparr>duplicates_removed := duplicates_removed r + 1,
                                 duplicates_list := duplicates_list r @ [l]\<rparr>\<rparr>
          else if is_closed (closedVocabulary lk) l
          then st\<lparr>seen := seen st @ [p],
                  report := r\<lparr>skipped_fechado := skipped_fechado r + 1,
                                skipped_fechado_list := skipped_fechado_list r @ [l]\<rparr>\<rparr>
          else if wasRecentlyContacted lk p kind (windowDays lk)
          then st\<lparr>seen := seen st @ [p],
                  report := r\<lparr>already_contacted := already_contacted r + 1,
                                already_contacted_list := already_contacted_list r @ [l]\<rparr>\<rparr>
          else st\<lparr>seen := seen st @ [p],
                  kept := kept st @ [\<lparr>lead_name = name l, phoneE164 = p,
                                       lead_company = company l, lead_notes = notes l\<rparr>],
                  report := r\<lparr>sendable := sendable r + 1\<rparr>\<rparr>)"

text \<open>Modelled from the spec: the report before any lead is counted.\<close>

definition empty_report :: SafetyReport where
  "empty_report =
     \<lparr>total_original = 0, sendable = 0, already_contacted = 0, already_contacted_list = [],
      duplicates_removed = 0, duplicates_list = [], skipped_fechado = 0, skipped_fechado_list = [],
      no_phone = 0\<rparr>"

text \<open>
  Modelled from the spec: \<open>filter(rawLeads, campaignKind, lookups)\<close> of the server: the
  leads go through the filter in input order; the report counts the batch as received.
\<close>

definition filter_leads :: "Lead list \<Rightarrow> CampaignKind \<Rightarrow> Lookups \<Rightarrow> NormalizedLead list \<times> SafetyReport" where
  "filter_leads rawLeads kind lk =
     (let st = foldl (filter_step kind lk) \<lparr>seen = [], kept = [], report = empty_report\<rparr> rawLeads
      in (kept st, (report st)\<lparr>total_original := length rawLeads\<rparr>))"

definition bucket_sum :: "SafetyReport \<Rightarrow> nat" where
  "bucket_sum r = sendable r + already_contacted r + duplicates_removed r + skipped_fechado r + no_phone r"

text \<open>The counts of a report agree with its lists and with the list of leads kept.\<close>

definition counts_agree :: "filter_state \<Rightarrow> bool" where
  "counts_agree st =
     (sendable (report st) = length (kept st)
      \<and> already_contacted (report st) = length (already_contacted_list (report st))
      \<and> duplicates_removed (report st) = length (duplicates_list (report st))
      \<and> skipped_fechado (report st) = length (skipped_fechado_list (report st)))"

subsection \<open>Properties\<close>

lemma bucket_sum_filter_step:
  "bucket_sum (report (filter_step kind lk st l)) = Suc (bucket_sum (report st))"
  by (simp add: filter_step_def bucket_sum_def Let_def split: option.splits)

lemma bucket_sum_foldl:
  "bucket_sum (report (foldl (filter_step kind lk) st ls)) = bucket_sum (report st) + length ls"
  by (induction ls arbitrary: st) (simp_all add: bucket_sum_filter_step)

lemma counts_agree_filter_step:
  "counts_agree st \<Longrightarrow> counts_agree (filter_step kind lk st l)"
  by (simp add: filter_step_def counts_agree_def Let_def split: option.splits)

lemma counts_agree_foldl:
  "counts_agree st \<Longrightarrow> counts_agree (foldl (filter_step kind lk) st ls)"
  by (induction ls arbitrary: st) (simp_all add: counts_agree_filter_step)

text \<open>
  The example scenario of the spec: two leads named Ana with the same phone, the first
  with a closed status, and a lead without a usable phone give no sendable lead, one
  blocked, one duplicate and one without phone.
\<close>

lemma filter_leads_example:
  "filter_leads
     [\<lparr>name = ''Ana'', phone = ''11988887777'', company = None, notes = None,
       original_status = Some ''Fechado''\<rparr>,
      \<lparr>name = ''Ana'', phone = ''11988887777'', company = None, notes = None,
       original_status = None\<rparr>,
      \<lparr>name = ''Bruno'', phone = ''bad'', company = None, notes = None,
       original_status = None\<rparr>]
     Reactivation
     \<lparr>closedVocabulary = [''fechado''], wasRecentlyContacted = (\<lambda>p k w. False), windowDays = 30\<rparr>
   = ([], \<lparr>total_original = 3, sendable = 0, already_contacted = 0, already_contacted_list = [],
           duplicates_removed = 1,
           duplicates_list = [\<lparr>name = ''Ana'', phone = ''11988887777'', company = None,
                                notes = None, original_status = None\<rparr>],
           skipped_fechado = 1,
           skipped_fechado_list = [\<lparr>name = ''Ana'', phone = ''11988887777'', company = None,
                                     notes = None, original_status = Some ''Fechado''\<rparr>],
           no_phone = 1\<rparr>)"
  by (simp add: filter_leads_def filter_step_def normalize_phone_def is_closed_def lower_char_def
      empty_report_def startsWith_def is_digit_def Let_def)

text \<open>
  C1. For every raw batch the report of the filter satisfies
  \<open>totalOriginal = sendable + alreadyContacted + duplicatesRemoved + blockedClosed + noPhone\<close>
  (in the field names of the components: \<open>total_original\<close>, \<open>sendable\<close>,
  \<open>already_contacted\<close>, \<open>duplicates_removed\<close>, \<open>skipped_fechado\<close>, \<open>no_phone\<close>): every
  lead of the batch is counted in exactly one bucket. The total is the length of the
  batch, and the count of sendable leads is the length of the list returned.
\<close>

theorem report_partition_complete:
  "total_original (snd (filter_leads rawLeads kind lk))
     = sendable (snd (filter_leads rawLeads kind lk))
       + already_contacted (snd (filter_leads rawLeads kind lk))
       + duplicates_removed (snd (filter_leads rawLeads kind lk))
       + skipped_fechado (snd (filter_leads rawLeads kind lk))
       + no_phone (snd (filter_leads rawLeads kind lk))
   \<and> total_original (snd (filter_leads rawLeads kind lk)) = length rawLeads
   \<and> sendable (snd (filter_leads rawLeads kind lk)) = length (fst (filter_leads rawLeads kind lk))"
proof -
  define st0 where "st0 = \<lparr>seen = [], kept = [], report = empty_report\<rparr>"
  define st where "st = foldl (filter_step kind lk) st0 rawLeads"
  have "bucket_sum (report st) = bucket_sum (report st0) + length rawLeads"
    unfolding st_def by (rule bucket_sum_foldl)
  then have sum: "bucket_sum (report st) = length rawLeads"
    by (simp add: st0_def empty_report_def bucket_sum_def)
  have "counts_agree st0"
    by (simp add: st0_def empty_report_def counts_agree_def)
  then have "counts_agree st"
    unfolding st_def by (rule counts_agree_foldl)
  then have kept: "sendable (report st) = length (kept st)"
    by (simp add: counts_agree_def)
  have fl: "filter_leads rawLeads kind lk = (kept st, (report st)\<lparr>total_original := length rawLeads\<rparr>)"
    by (simp add: filter_leads_def st_def st0_def Let_def)
  show ?thesis
    using sum kept by (simp add: fl bucket_sum_def)
qed

lemma startsWith_55_split: "startsWith d ''55'' \<Longrightarrow> ''55'' @ drop 2 d = d"
proof -
  assume a: "startsWith d ''55''"
  have l: "length ''55'' = (2::nat)" by simp
  have "take 2 d = ''55''" using a unfolding startsWith_def l .
  then show ?thesis by (metis append_take_drop_id)
qed

text \<open>
  The Normalizer in terms of the significant digits, the digits without the country
  prefix: it fails when they are fewer than 10, and else gives them behind the prefix.
\<close>

lemma normalize_phone_significant:
  "normalize_phone raw =
     (let digits = filter is_digit raw;
          significant = (if startsWith digits ''55'' then drop 2 digits else digits)
      in if length significant < 10 then None else Some (''55'' @ significant))"
proof (cases "startsWith (filter is_digit raw) ''55''")
  case True
  then show ?thesis
    using startsWith_55_split [of "filter is_digit raw"]
    by (simp add: normalize_phone_def Let_def)
next
  case False
  then show ?thesis by (simp add: normalize_phone_def Let_def)
qed

lemma normalize_phone_Some:
  assumes "normalize_phone raw = Some e"
  shows "list_all is_digit e" and "startsWith e ''55''" and "10 \<le> length (drop 2 e)"
proof -
  define d where "d = filter is_digit raw"
  have e: "e = (if startsWith d ''55'' then d else ''55'' @ d)" and len: "\<not> length e - 2 < 10"
    using assms by (auto simp: normalize_phone_def Let_def d_def split: if_splits)
  have dig: "list_all is_digit d" by (simp add: d_def list_all_iff)
  have five: "is_digit CHR ''5''" by (simp add: is_digit_def)
  show "list_all is_digit e" using e dig five by simp
  show "startsWith e ''55''" using e by (simp add: startsWith_def)
  show "10 \<le> length (drop 2 e)" using len by simp
qed

text \<open>A normalized phone is left as it is by the Normalizer.\<close>

lemma normalize_phone_fixed:
  assumes "normalize_phone raw = Some e"
  shows "normalize_phone e = Some e"
proof -
  have "filter is_digit e = e"
    using normalize_phone_Some(1) [OF assms] by (simp add: list_all_iff)
  moreover have "\<not> length e - 2 < 10"
    using normalize_phone_Some(3) [OF assms] by simp
  ultimately show ?thesis
    using normalize_phone_Some(2) [OF assms] by (simp add: normalize_phone_def Let_def)
qed

definition normalized :: "NormalizedLead \<Rightarrow> bool" where
  "normalized n = (normalize_phone (phoneE164 n) = Some (phoneE164 n))"

lemma kept_normalized_filter_step:
  "list_all normalized (kept st) \<Longrightarrow> list_all normalized (kept (filter_step kind lk st l))"
  by (auto simp add: filter_step_def Let_def normalized_def normalize_phone_fixed
      split: option.splits)

lemma kept_normalized_foldl:
  "list_all normalized (kept st) \<Longrightarrow> list_all normalized (kept (foldl (filter_step kind lk) st ls))"
  by (induction ls arbitrary: st) (simp_all add: kept_normalized_filter_step)

lemma filter_leads_normalized: "list_all normalized (fst (filter_leads rawLeads kind lk))"
proof -
  have "list_all normalized (kept \<lparr>seen = [], kept = [], report = empty_report\<rparr>)" by simp
  then show ?thesis
    unfolding filter_leads_def Let_def fst_conv by (rule kept_normalized_foldl)
qed

lemma filter_step_no_phone:
  assumes "normalize_phone (phone l) = None"
  shows "filter_step kind lk st l = st\<lparr>report := (report st)\<lparr>no_phone := no_phone (report st) + 1\<rparr>\<rparr>"
  using assms by (simp add: filter_step_def Let_def)

text \<open>
  The link opener of the pipeline page strips and prefixes as the Normalizer does: where
  the Normalizer accepts a phone, \<open>handleWhatsApp\<close> opens the address of the same number.
\<close>

lemma handleWhatsApp_agrees:
  assumes "normalize_phone t = Some e"
  shows "handleWhatsApp (Some t) = Some (''https://wa.me/'' @ e)"
proof -
  have "t \<noteq> []" using assms by (auto simp: normalize_phone_def Let_def startsWith_def)
  moreover have "whatsapp_phone t = e"
    using assms
    by (auto simp: normalize_phone_def whatsapp_phone_def strip_non_digits_def Let_def
        split: if_splits)
  ultimately show ?thesis by (simp add: handleWhatsApp_def)
qed

text \<open>
  C7. Phone normalization, for every raw phone string, strips all characters that are
  not digits and puts the country prefix 55 in front unless the digits already start
  with it; it fails when fewer than 10 significant digits (the digits behind the prefix)
  remain. What it gives consists of digits, starts with 55 and has at least 10 digits
  behind the prefix. A lead whose phone fails is counted in the \<open>no_phone\<close> bucket and not
  kept, and every lead that the filter keeps carries a normalized phone.
\<close>

theorem normalize_phone_strips_prefixes_rejects:
  "normalize_phone raw =
     (let digits = filter is_digit raw;
          significant = (if startsWith digits ''55'' then drop 2 digits else digits)
      in if length significant < 10 then None else Some (''55'' @ significant))
   \<and> (case normalize_phone raw of
         None \<Rightarrow> True
       | Some e \<Rightarrow> list_all is_digit e \<and> startsWith e ''55'' \<and> 10 \<le> length (drop 2 e)
                   \<and> normalize_phone e = Some e)
   \<and> (normalize_phone (phone l) = None \<longrightarrow>
         kept (filter_step kind lk st l) = kept st
         \<and> seen (filter_step kind lk st l) = seen st
         \<and> report (filter_step kind lk st l) = (report st)\<lparr>no_phone := no_phone (report st) + 1\<rparr>)
   \<and> list_all normalized (fst (filter_leads rawLeads kind lk))"
proof -
  have a: "case normalize_phone raw of
         None \<Rightarrow> True
       | Some e \<Rightarrow> list_all is_digit e \<and> startsWith e ''55'' \<and> 10 \<le> length (drop 2 e)
                   \<and> normalize_phone e = Some e"
    using normalize_phone_Some [of raw] normalize_phone_fixed [of raw]
    by (simp split: option.splits)
  have b: "normalize_phone (phone l) = None \<longrightarrow>
         kept (filter_step kind lk st l) = kept st
         \<and> seen (filter_step kind lk st l) = seen st
         \<and> report (filter_step kind lk st l) = (report st)\<lparr>no_phone := no_phone (report st) + 1\<rparr>"
    by (simp add: filter_step_no_phone)
  show ?thesis
    using normalize_phone_significant [of raw] a b filter_leads_normalized [of rawLeads kind lk]
    by blast
qed

theorem normalize_phone_strips_prefixes_rejects_witness:
  "normalize_phone ''bad'' = None
   \<and> normalize_phone ''(11) 98888-7777'' = Some ''5511988887777''
   \<and> kept (filter_step Reactivation
        \<lparr>closedVocabulary = [''fechado''], wasRecentlyContacted = (\<lambda>p k w. False), windowDays = 30\<rparr>
        \<lparr>seen = [], kept = [], report = empty_report\<rparr>
        \<lparr>name = ''Bruno'', phone = ''bad'', company = None, notes = None, original_status = None\<rparr>)
      = []"
proof -
  have n: "normalize_phone ''bad'' = None"
    by (simp add: normalize_phone_def startsWith_def is_digit_def)
  have m: "normalize_phone ''(11) 98888-7777'' = Some ''5511988887777''"
    by (simp add: normalize_phone_def startsWith_def is_digit_def)
  show ?thesis
    using normalize_phone_strips_prefixes_rejects
      [of "''bad''" "\<lparr>name = ''Bruno'', phone = ''bad'', company = None, notes = None,
                        original_status = None\<rparr>" Reactivation
          "\<lparr>closedVocabulary = [''fechado''], wasRecentlyContacted = (\<lambda>p k w. False),
            windowDays = 30\<rparr>"
          "\<lparr>seen = [], kept = [], report = empty_report\<rparr>" "[]"] n m
    by simp
qed

section \<open>Rendering a message template\<close>

text \<open>
  Both campaign components render the preview of a message with a function
  \<open>formatMessage\<close>, a chain of six calls of \<open>String.prototype.replace\<close> with a
  replacement string. In a replacement string, \<open>$$\<close> stands for a dollar sign,
  \<open>$&\<close> for the matched text, \<open>$\<close> followed by a backquote for the text before the
  match and \<open>$\<close> followed by an apostrophe for the text after it (the patterns here have
  no capture groups, so every other \<open>$\<close> is literal).
\<close>

fun GetSubstitution :: "string \<Rightarrow> string \<Rightarrow> string \<Rightarrow> string \<Rightarrow> string" where
  "GetSubstitution matched before after [] = []"
| "GetSubstitution matched before after [c] = [c]"
| "GetSubstitution matched before after (c # d # r) =
     (if c = CHR ''$'' then
        (if d = CHR ''$'' then CHR ''$'' # GetSubstitution matched before after r
         else if d = CHR ''&'' then matched @ GetSubstitution matched before after r
         else if d = CHR 0x60 then before @ GetSubstitution matched before after r
         else if d = CHR 0x27 then after @ GetSubstitution matched before after r
         else c # GetSubstitution matched before after (d # r))
      else c # GetSubstitution matched before after (d # r))"

text \<open>The first occurrence of a text in another: what stands before it and after it.\<close>

fun find_first :: "string \<Rightarrow> string \<Rightarrow> (string \<times> string) option" where
  "find_first p [] = (if p = [] then Some ([], []) else None)"
| "find_first p (c # cs) =
     (if startsWith (c # cs) p then Some ([], drop (length p) (c # cs))
      else map_option (\<lambda>(b, a). (c # b, a)) (find_first p cs))"

lemma find_first_Some: "find_first p s = Some (b, a) \<Longrightarrow> s = b @ p @ a"
proof (induction s arbitrary: b)
  case Nil
  then show ?case by (simp split: if_splits)
next
  case (Cons c cs)
  show ?case
  proof (cases "startsWith (c # cs) p")
    case True
    then have "b = []" and "a = drop (length p) (c # cs)"
      using Cons.prems by simp_all
    moreover have "take (length p) (c # cs) = p"
      using True by (simp add: startsWith_def)
    ultimately show ?thesis
      by (metis append_Nil append_take_drop_id)
  next
    case False
    then obtain b' where "find_first p cs = Some (b', a)" and "b = c # b'"
      using Cons.prems by auto
    then show ?thesis using Cons.IH by simp
  qed
qed

text \<open>
  \<open>s.replace(p, r)\<close> with a string pattern: the first occurrence only.
\<close>

definition js_replace :: "string \<Rightarrow> string \<Rightarrow> string \<Rightarrow> string" where
  "js_replace p r s =
     (case find_first p s of
        None \<Rightarrow> s
      | Some (b, a) \<Rightarrow> b @ GetSubstitution p b a r @ a)"

text \<open>
  \<open>s.replace(/p/g, r)\<close> for a pattern that matches the literal text \<open>p\<close> (as
  \<open>/\[NAME\]/g\<close> matches \<open>[NAME]\<close>): every occurrence, from left to right, without
  overlap; \<open>pre\<close> is the part of the subject already passed, which belongs to the text
  before a match. (The empty pattern does not occur.)
\<close>

function replace_global_from :: "string \<Rightarrow> string \<Rightarrow> string \<Rightarrow> string \<Rightarrow> string" where
  "replace_global_from p r pre s =
     (if p = [] then s
      else case find_first p s of
             None \<Rightarrow> s
           | Some (b, a) \<Rightarrow>
               b @ GetSubstitution p (pre @ b) a r @ replace_global_from p r (pre @ b @ p) a)"
  by pat_completeness auto
termination
proof (relation "measure (\<lambda>(p, r, pre, s). length s)")
  show "wf (measure (\<lambda>(p, r, pre, s). length s))" by simp
next
  fix p r pre s :: string and x2 :: "string \<times> string" and b a :: string
  assume "p \<noteq> []" and "find_first p s = Some x2" and "(b, a) = x2"
  then have "s = b @ p @ a" using find_first_Some by simp
  then show "((p, r, pre @ b @ p, a), (p, r, pre, s)) \<in> measure (\<lambda>(p, r, pre, s). length s)"
    using \<open>p \<noteq> []\<close> by simp
qed

declare replace_global_from.simps [simp del]

definition replace_global :: "string \<Rightarrow> string \<Rightarrow> string \<Rightarrow> string" where
  "replace_global p r s = replace_global_from p r [] s"

text \<open>
  ManualProspecting:
  \<^verbatim>\<open>
  const formatMessage = (template: string, lead: Lead) => {
    return template
      .replace(/\[NAME\]/g, lead.name || 'Amigo')
      .replace(/\[NOTES\]/g, lead.notes || 'crescer o negocio')
      .replace(/\[COMPANY\]/g, lead.company || '')
      .replace(/\{name\}/g, lead.name || 'Amigo')
      .replace(/\{notes\}/g, lead.notes || 'crescer o negocio')
      .replace(/\{company\}/g, lead.company || '');
  };
  \<close>
  The name of a \<open>Lead\<close> is a string; an empty one is falsy.
\<close>

definition formatMessage_ManualProspecting :: "string \<Rightarrow> Lead \<Rightarrow> string" where
  "formatMessage_ManualProspecting template lead =
     replace_global ''{company}'' (or_else (company lead) [])
       (replace_global ''{notes}'' (or_else (notes lead) ''crescer o negocio'')
         (replace_global ''{name}'' (or_else (Some (name lead)) ''Amigo'')
           (replace_global ''[COMPANY]'' (or_else (company lead) [])
             (replace_global ''[NOTES]'' (or_else (notes lead) ''crescer o negocio'')
               (replace_global ''[NAME]'' (or_else (Some (name lead)) ''Amigo'') template)))))"

text \<open>
  ReactivationCampaign, whose leads carry the notes as a required field:
  \<^verbatim>\<open>
  const formatMessage = (template: string, lead: ReactivationLead) => {
    return template
      .replace('[NAME]', lead.name)
      .replace('[NOTES]', lead.notes)
      .replace('[COMPANY]', lead.company || '')
      .replace('{name}', lead.name)
      .replace('{notes}', lead.notes)
      .replace('{company}', lead.company || '');
  };
  \<close>
\<close>

record ReactivationLead =
  rl_name :: string
  rl_phone :: string
  rl_notes :: string
  rl_company :: "string option"

definition formatMessage_ReactivationCampaign :: "string \<Rightarrow> ReactivationLead \<Rightarrow> string" where
  "formatMessage_ReactivationCampaign template lead =
     js_replace ''{company}'' (or_else (rl_company lead) [])
       (js_replace ''{notes}'' (rl_notes lead)
         (js_replace ''{name}'' (rl_name lead)
           (js_replace ''[COMPANY]'' (or_else (rl_company lead) [])
             (js_replace ''[NOTES]'' (rl_notes lead)
               (js_replace ''[NAME]'' (rl_name lead) template)))))"

text \<open>A lead of ReactivationCampaign is a lead of ManualProspecting with its notes present.\<close>

definition as_Lead :: "ReactivationLead \<Rightarrow> Lead" where
  "as_Lead l =
     \<lparr>name = rl_name l, phone = rl_phone l, company = rl_company l, notes = Some (rl_notes l),
      original_status = None\<rparr>"

definition placeholders :: "string list" where
  "placeholders = [''[NAME]'', ''[NOTES]'', ''[COMPANY]'', ''{name}'', ''{notes}'', ''{company}'']"

definition no_placeholder :: "string \<Rightarrow> bool" where
  "no_placeholder s = list_all (\<lambda>p. find_first p s = None) placeholders"

text \<open>A text occurs at most once in another, read from left to right without overlap.\<close>

definition at_most_once :: "string \<Rightarrow> string \<Rightarrow> bool" where
  "at_most_once p s =
     (case find_first p s of None \<Rightarrow> True | Some (b, a) \<Rightarrow> find_first p a = None)"

text \<open>
  Each of the six placeholders occurs at most once in the text that the chain of
  ReactivationCampaign has reached when its turn comes.
\<close>

definition single_use :: "string \<Rightarrow> ReactivationLead \<Rightarrow> bool" where
  "single_use template lead =
     (let t1 = js_replace ''[NAME]'' (rl_name lead) template;
          t2 = js_replace ''[NOTES]'' (rl_notes lead) t1;
          t3 = js_replace ''[COMPANY]'' (or_else (rl_company lead) []) t2;
          t4 = js_replace ''{name}'' (rl_name lead) t3;
          t5 = js_replace ''{notes}'' (rl_notes lead) t4
      in at_most_once ''[NAME]'' template \<and> at_most_once ''[NOTES]'' t1
         \<and> at_most_once ''[COMPANY]'' t2 \<and> at_most_once ''{name}'' t3
         \<and> at_most_once ''{notes}'' t4 \<and> at_most_once ''{company}'' t5)"





subsection \<open>Properties\<close>

lemma replace_global_no_match: "find_first p s = None \<Longrightarrow> replace_global p r s = s"
  by (simp add: replace_global_def replace_global_from.simps [of p r "[]" s])

lemma js_replace_no_match: "find_first p s = None \<Longrightarrow> js_replace p r s = s"
  by (simp add: js_replace_def)

lemma replace_global_single:
  assumes "at_most_once p s" and "p \<noteq> []"
  shows "replace_global p r s = js_replace p r s"
proof (cases "find_first p s")
  case None
  then show ?thesis by (simp add: replace_global_no_match js_replace_no_match)
next
  case (Some ba)
  obtain b a where ba: "ba = (b, a)" by (cases ba)
  have rest: "find_first p a = None"
    using assms(1) Some ba by (simp add: at_most_once_def)
  have "replace_global_from p r (b @ p) a = a"
    using rest assms(2) by (simp add: replace_global_from.simps [of p r "b @ p" a])
  then show ?thesis
    using Some ba assms(2)
    by (simp add: replace_global_def js_replace_def replace_global_from.simps [of p r "[]" s])
qed


lemma formatMessage_no_placeholder:
  "no_placeholder t \<Longrightarrow> formatMessage_ManualProspecting t l = t"
  by (simp add: no_placeholder_def placeholders_def formatMessage_ManualProspecting_def
      replace_global_no_match)

lemma or_else_nonempty: "v \<noteq> [] \<Longrightarrow> or_else (Some v) d = v"
  by (simp add: or_else_def)

lemma find_first_absent:
  "p \<noteq> [] \<Longrightarrow> hd p \<notin> set s \<Longrightarrow> find_first p s = None"
proof (induction s)
  case Nil
  then show ?case by simp
next
  case (Cons c cs)
  have "\<not> startsWith (c # cs) p"
  proof
    assume "startsWith (c # cs) p"
    then have "take (length p) (c # cs) = p" by (simp add: startsWith_def)
    then have "hd p = c" using Cons.prems(1) by (cases p) auto
    then show False using Cons.prems(2) by simp
  qed
  then show ?case using Cons by simp
qed

lemma find_first_at:
  "p \<noteq> [] \<Longrightarrow> hd p \<notin> set pre \<Longrightarrow> find_first p (pre @ p @ post) = Some (pre, post)"
proof (induction pre)
  case Nil
  then obtain c cs where eq: "p @ post = c # cs" by (cases p) auto
  have "startsWith (p @ post) p" by (simp add: startsWith_def)
  then have "find_first p (c # cs) = Some ([], drop (length p) (c # cs))"
    by (simp add: eq)
  then have "find_first p (p @ post) = Some ([], drop (length p) (p @ post))"
    by (simp add: eq)
  then show ?case by simp
next
  case (Cons c pre)
  have "\<not> startsWith (c # pre @ p @ post) p"
  proof
    assume "startsWith (c # pre @ p @ post) p"
    then have "take (length p) (c # pre @ p @ post) = p" by (simp add: startsWith_def)
    then have "hd p = c" using Cons.prems(1) by (cases p) auto
    then show False using Cons.prems(2) by simp
  qed
  then show ?case using Cons by simp
qed

text \<open>
  A text with one occurrence of a pattern, whose first character occurs nowhere else:
  the occurrence is replaced by the expansion of the replacement string.
\<close>

lemma replace_global_at:
  assumes "p \<noteq> []" and "hd p \<notin> set pre" and "hd p \<notin> set post"
  shows "replace_global p r (pre @ p @ post) = pre @ GetSubstitution p pre post r @ post"
proof -
  have "find_first p (pre @ p @ post) = Some (pre, post)"
    using assms(1,2) by (rule find_first_at)
  moreover have "find_first p post = None"
    using assms(1,3) by (rule find_first_absent)
  ultimately show ?thesis
    using assms(1)
    by (simp add: replace_global_def replace_global_from.simps [of p r "[]" "pre @ p @ post"]
        replace_global_from.simps [of p r "pre @ p" post])
qed

lemma replace_global_absent:
  "p \<noteq> [] \<Longrightarrow> hd p \<notin> set s \<Longrightarrow> replace_global p r s = s"
  by (simp add: find_first_absent replace_global_no_match)

text \<open>
  On a template with the placeholder \<open>[NAME]\<close> once and no other bracket or brace, a
  lead without a name is greeted as Amigo.
\<close>

lemma formatMessage_missing_name:
  assumes "CHR ''['' \<notin> set pre \<union> set post" and "CHR ''{'' \<notin> set pre \<union> set post"
  shows "formatMessage_ManualProspecting (pre @ ''[NAME]'' @ post) (l\<lparr>name := []\<rparr>)
         = pre @ ''Amigo'' @ post"
proof -
  have step: "replace_global ''[NAME]'' ''Amigo'' (pre @ ''[NAME]'' @ post) = pre @ ''Amigo'' @ post"
    using assms(1) replace_global_at [of "''[NAME]''" pre post "''Amigo''"] by simp
  have sq: "CHR ''['' \<notin> set (pre @ ''Amigo'' @ post)" using assms(1) by simp
  have br: "CHR ''{'' \<notin> set (pre @ ''Amigo'' @ post)" using assms(2) by simp
  have a: "replace_global ''[NOTES]'' r (pre @ ''Amigo'' @ post) = pre @ ''Amigo'' @ post" for r
    using sq replace_global_absent [of "''[NOTES]''" "pre @ ''Amigo'' @ post" r] by simp
  have b: "replace_global ''[COMPANY]'' r (pre @ ''Amigo'' @ post) = pre @ ''Amigo'' @ post" for r
    using sq replace_global_absent [of "''[COMPANY]''" "pre @ ''Amigo'' @ post" r] by simp
  have c: "replace_global ''{name}'' r (pre @ ''Amigo'' @ post) = pre @ ''Amigo'' @ post" for r
    using br replace_global_absent [of "''{name}''" "pre @ ''Amigo'' @ post" r] by simp
  have d: "replace_global ''{notes}'' r (pre @ ''Amigo'' @ post) = pre @ ''Amigo'' @ post" for r
    using br replace_global_absent [of "''{notes}''" "pre @ ''Amigo'' @ post" r] by simp
  have e: "replace_global ''{company}'' r (pre @ ''Amigo'' @ post) = pre @ ''Amigo'' @ post" for r
    using br replace_global_absent [of "''{company}''" "pre @ ''Amigo'' @ post" r] by simp
  have nm: "or_else (Some (name (l\<lparr>name := []\<rparr>))) ''Amigo'' = ''Amigo''"
    by (simp add: or_else_def)
  show ?thesis
    by (simp only: formatMessage_ManualProspecting_def nm step a b c d e)
qed

definition lead_without_name :: ReactivationLead where
  "lead_without_name =
     \<lparr>rl_name = [], rl_phone = ''5511988887777'', rl_notes = ''vender mais'', rl_company = None\<rparr>"

definition lead_ana :: ReactivationLead where
  "lead_ana =
     \<lparr>rl_name = ''Ana'', rl_phone = ''5511988887777'', rl_notes = ''vender mais'',
      rl_company = Some ''Padaria Sol''\<rparr>"

definition lead_with_placeholder_in_notes :: Lead where
  "lead_with_placeholder_in_notes =
     \<lparr>name = ''Ana'', phone = ''5511988887777'', company = None,
      notes = Some ''[NAME] quer vender mais'', original_status = None\<rparr>"















text \<open>
  C9 as stated fails: rendering the output again with the same lead changes it when
  the output still holds a placeholder, here one that came in with the notes.
\<close>

theorem formatMessage_twice_differs:
  "formatMessage_ManualProspecting
     (formatMessage_ManualProspecting ''Oi [NAME], [NOTES]'' lead_with_placeholder_in_notes)
     lead_with_placeholder_in_notes
   \<noteq> formatMessage_ManualProspecting ''Oi [NAME], [NOTES]'' lead_with_placeholder_in_notes"
  by (simp add: formatMessage_ManualProspecting_def lead_with_placeholder_in_notes_def
      replace_global_def replace_global_from.simps startsWith_def or_else_def)

text \<open>
  C9, amended. \<open>formatMessage\<close> is a function of the template and the lead alone (it
  reads and writes no state). It leaves unchanged every text that holds none of the six
  placeholders; so rendering an output again with the same lead leaves it unchanged
  whenever that output holds no placeholder.
\<close>

theorem formatMessage_again_unchanged:
  "(no_placeholder s \<longrightarrow> formatMessage_ManualProspecting s l = s)
   \<and> (no_placeholder (formatMessage_ManualProspecting t l) \<longrightarrow>
        formatMessage_ManualProspecting (formatMessage_ManualProspecting t l) l
        = formatMessage_ManualProspecting t l)"
  by (simp add: formatMessage_no_placeholder)

theorem formatMessage_again_unchanged_witness:
  "no_placeholder (formatMessage_ManualProspecting ''Oi [NAME], {notes}'' (as_Lead lead_ana))
   \<and> formatMessage_ManualProspecting
        (formatMessage_ManualProspecting ''Oi [NAME], {notes}'' (as_Lead lead_ana)) (as_Lead lead_ana)
      = ''Oi Ana, vender mais''"
proof -
  have out: "formatMessage_ManualProspecting ''Oi [NAME], {notes}'' (as_Lead lead_ana)
             = ''Oi Ana, vender mais''"
    by (simp add: formatMessage_ManualProspecting_def lead_ana_def as_Lead_def
        replace_global_def replace_global_from.simps startsWith_def or_else_def)
  have np: "no_placeholder ''Oi Ana, vender mais''"
    by (simp add: no_placeholder_def placeholders_def startsWith_def)
  show ?thesis
    using formatMessage_again_unchanged
      [of "''Oi Ana, vender mais''" "as_Lead lead_ana" "''Oi [NAME], {notes}''"] out np
    by simp
qed

text \<open>
  C10 as stated fails: on a template with the placeholder twice, ReactivationCampaign
  replaces the first occurrence only; and on a lead without a name the two differ by the
  fallback.
\<close>

theorem formatMessage_implementations_differ:
  "formatMessage_ReactivationCampaign ''[NAME], oi [NAME]!'' lead_ana = ''Ana, oi [NAME]!''
   \<and> formatMessage_ManualProspecting ''[NAME], oi [NAME]!'' (as_Lead lead_ana) = ''Ana, oi Ana!''
   \<and> formatMessage_ReactivationCampaign ''Oi {name}'' lead_without_name
      \<noteq> formatMessage_ManualProspecting ''Oi {name}'' (as_Lead lead_without_name)"
  by (simp add: formatMessage_ReactivationCampaign_def formatMessage_ManualProspecting_def
      lead_ana_def lead_without_name_def as_Lead_def js_replace_def replace_global_def
      replace_global_from.simps startsWith_def or_else_def)

text \<open>
  C10, amended. The two functions give the same output for every lead whose name and
  notes are not empty and every template in which each placeholder, when its turn comes
  in the chain of six replacements, occurs at most once in the text reached.
\<close>

theorem formatMessage_agree_single_use:
  assumes "rl_name l \<noteq> []" and "rl_notes l \<noteq> []" and "single_use t l"
  shows "formatMessage_ReactivationCampaign t l = formatMessage_ManualProspecting t (as_Lead l)"
proof -
  define t1 where "t1 = js_replace ''[NAME]'' (rl_name l) t"
  define t2 where "t2 = js_replace ''[NOTES]'' (rl_notes l) t1"
  define t3 where "t3 = js_replace ''[COMPANY]'' (or_else (rl_company l) []) t2"
  define t4 where "t4 = js_replace ''{name}'' (rl_name l) t3"
  define t5 where "t5 = js_replace ''{notes}'' (rl_notes l) t4"
  have once: "at_most_once ''[NAME]'' t" "at_most_once ''[NOTES]'' t1"
    "at_most_once ''[COMPANY]'' t2" "at_most_once ''{name}'' t3"
    "at_most_once ''{notes}'' t4" "at_most_once ''{company}'' t5"
    using assms(3) by (simp_all add: single_use_def Let_def t1_def t2_def t3_def t4_def t5_def)
  have n: "or_else (Some (rl_name l)) ''Amigo'' = rl_name l"
    using assms(1) by (rule or_else_nonempty)
  have m: "or_else (Some (rl_notes l)) ''crescer o negocio'' = rl_notes l"
    using assms(2) by (rule or_else_nonempty)
  have s1: "replace_global ''[NAME]'' (rl_name l) t = t1"
    using once(1) by (simp add: replace_global_single t1_def)
  have s2: "replace_global ''[NOTES]'' (rl_notes l) t1 = t2"
    using once(2) by (simp add: replace_global_single t2_def)
  have s3: "replace_global ''[COMPANY]'' (or_else (rl_company l) []) t2 = t3"
    using once(3) by (simp add: replace_global_single t3_def)
  have s4: "replace_global ''{name}'' (rl_name l) t3 = t4"
    using once(4) by (simp add: replace_global_single t4_def)
  have s5: "replace_global ''{notes}'' (rl_notes l) t4 = t5"
    using once(5) by (simp add: replace_global_single t5_def)
  have s6: "replace_global ''{company}'' (or_else (rl_company l) []) t5
            = js_replace ''{company}'' (or_else (rl_company l) []) t5"
    using once(6) by (simp add: replace_global_single)
  have "formatMessage_ManualProspecting t (as_Lead l)
        = js_replace ''{company}'' (or_else (rl_company l) []) t5"
    by (simp add: formatMessage_ManualProspecting_def as_Lead_def n m s1 s2 s3 s4 s5 s6)
  moreover have "formatMessage_ReactivationCampaign t l
        = js_replace ''{company}'' (or_else (rl_company l) []) t5"
    by (simp add: formatMessage_ReactivationCampaign_def t1_def t2_def t3_def t4_def t5_def)
  ultimately show ?thesis by simp
qed

theorem formatMessage_agree_single_use_witness:
  "rl_name lead_ana \<noteq> [] \<and> rl_notes lead_ana \<noteq> []
   \<and> single_use ''Oi [NAME] da {company}, [NOTES]'' lead_ana
   \<and> formatMessage_ReactivationCampaign ''Oi [NAME] da {company}, [NOTES]'' lead_ana
     = formatMessage_ManualProspecting ''Oi [NAME] da {company}, [NOTES]'' (as_Lead lead_ana)"
proof -
  have a: "rl_name lead_ana \<noteq> []" and b: "rl_notes lead_ana \<noteq> []"
    by (simp_all add: lead_ana_def)
  have c: "single_use ''Oi [NAME] da {company}, [NOTES]'' lead_ana"
    by (simp add: single_use_def Let_def lead_ana_def js_replace_def at_most_once_def
        startsWith_def or_else_def)
  show ?thesis
    using formatMessage_agree_single_use [OF a b c] a b c by simp
qed

end
